theory Spec2Isabelle
  imports Main "HOL-Library.Multiset" "HOL-Library.Sublist" "HOL-Library.Word"
begin

section \<open>Link manager: the data model\<close>

text \<open>
  The client (\<^verbatim>\<open>LinkManager\<close>, a React component) keeps two arrays, \<^verbatim>\<open>categories\<close> and
  \<^verbatim>\<open>links\<close>, and a transient drag state. JavaScript arrays are lists, objects with a fixed
  shape are records, string-literal unions are datatypes, \<^verbatim>\<open>null\<close> is \<open>None\<close>. The
  \<^verbatim>\<open>order\<close> and \<^verbatim>\<open>createdAt\<close> numbers are integers.

  A string of the model is the UTF-8 encoding of the JavaScript string, one \<open>char\<close> for each
  byte: ASCII text is itself, \<open>\<Sigma>\<close> (U+03A3) is the two bytes \<open>0xCE 0xA3\<close>. For well-formed
  strings, equality, emptiness, \<^verbatim>\<open>includes\<close> and splitting at an ASCII character are the same
  on the bytes as on the UTF-16 code units the code works on.

  Record fields carry a prefix, since several source types share the field names
  \<^verbatim>\<open>id\<close>, \<^verbatim>\<open>title\<close>, \<^verbatim>\<open>url\<close> and \<^verbatim>\<open>order\<close>:
  \<open>sub_\<close> for \<^verbatim>\<open>SubLink\<close>, \<open>link_\<close> for \<^verbatim>\<open>LinkItem\<close>, \<open>cat_\<close> for \<^verbatim>\<open>Category\<close>,
  \<open>drag_\<close> for \<^verbatim>\<open>DragItem\<close>, \<open>del_\<close> for the delete target.
\<close>

record SubLink =
  sub_id :: string
  sub_title :: string
  sub_url :: string

record LinkItem =
  link_id :: string
  link_title :: string
  link_url :: string
  link_description :: "string option"
  link_categoryId :: string
  link_createdAt :: int
  link_order :: int
  link_subLinks :: "SubLink list"

record Category =
  cat_id :: string
  cat_name :: string
  cat_order :: int

datatype ItemType = CATEGORY | LINK

record DragItem =
  drag_type :: ItemType
  drag_id :: string
  drag_categoryId :: "string option"

datatype DropPosition = BEFORE | AFTER

record DeleteTarget =
  del_type :: ItemType
  del_id :: string
  del_name :: string

text \<open>
  The state of the component that the operations below read or write. The flags of the
  modal dialogs and of the sidebar are presentation only and are left out.
\<close>

record AppState =
  categories :: "Category list"
  links :: "LinkItem list"
  searchQuery :: string
  selectedCategory :: string
  deleteTarget :: "DeleteTarget option"
  draggedItem :: "DragItem option"
  dragOverId :: "string option"
  dropPosition :: "DropPosition option"

section \<open>The JavaScript array operations the code calls\<close>

text \<open>\<^verbatim>\<open>Array.prototype.findIndex\<close>: the first index whose element satisfies the test, or -1.\<close>

fun findIndex :: "('a \<Rightarrow> bool) \<Rightarrow> 'a list \<Rightarrow> int" where
  "findIndex p [] = - 1"
| "findIndex p (x # xs) =
     (if p x then 0
      else (let r = findIndex p xs in if r = - 1 then - 1 else r + 1))"

text \<open>
  \<^verbatim>\<open>Array.prototype.splice(start, deleteCount, ...items)\<close>: a negative start counts from
  the end, a start beyond the end is the end; the result is the removed elements and the
  array after the call.
\<close>

definition splice_js :: "int \<Rightarrow> nat \<Rightarrow> 'a list \<Rightarrow> 'a list \<Rightarrow> 'a list \<times> 'a list" where
  "splice_js start deleteCount items arr =
     (let len = int (length arr);
          s = nat (if start < 0 then max (len + start) 0 else min start len)
      in (take deleteCount (drop s arr),
          take s arr @ items @ drop (s + deleteCount) arr))"

text \<open>\<^verbatim>\<open>arr.map((item, idx) => f(item, idx))\<close>.\<close>

definition map_index :: "('a \<Rightarrow> nat \<Rightarrow> 'b) \<Rightarrow> 'a list \<Rightarrow> 'b list" where
  "map_index f xs = map (\<lambda>(x, i). f x i) (zip xs [0..<length xs])"

section \<open>Deleting, adding\<close>

text \<open>
  \<^verbatim>\<open>performDelete\<close>: deletes the link or the category named by \<^verbatim>\<open>deleteTarget\<close>. A
  deleted category's links move to the sentinel category \<^verbatim>\<open>'uncategorized'\<close>.
\<close>

definition uncategorized :: string where
  "uncategorized = ''uncategorized''"

definition performDelete :: "AppState \<Rightarrow> AppState" where
  "performDelete st =
     (case deleteTarget st of
        None \<Rightarrow> st
      | Some t \<Rightarrow>
          (if del_type t = LINK
           then st\<lparr>links := filter (\<lambda>l. link_id l \<noteq> del_id t) (links st),
                   deleteTarget := None\<rparr>
           else st\<lparr>categories := filter (\<lambda>c. cat_id c \<noteq> del_id t) (categories st),
                   links := map (\<lambda>l. if link_categoryId l = del_id t
                                       then l\<lparr>link_categoryId := uncategorized\<rparr> else l)
                                (links st),
                   selectedCategory :=
                     (if selectedCategory st = del_id t then ''ALL'' else selectedCategory st),
                   deleteTarget := None\<rparr>))"

text \<open>\<^verbatim>\<open>requestDeleteCategory\<close> and \<^verbatim>\<open>requestDeleteLink\<close> set the delete target.\<close>

definition requestDeleteCategory :: "AppState \<Rightarrow> string \<Rightarrow> string \<Rightarrow> AppState" where
  "requestDeleteCategory st i n =
     st\<lparr>deleteTarget := Some \<lparr>del_type = CATEGORY, del_id = i, del_name = n\<rparr>\<rparr>"

definition requestDeleteLink :: "AppState \<Rightarrow> string \<Rightarrow> string \<Rightarrow> AppState" where
  "requestDeleteLink st i n =
     st\<lparr>deleteTarget := Some \<lparr>del_type = LINK, del_id = i, del_name = n\<rparr>\<rparr>"

text \<open>
  \<^verbatim>\<open>handleSaveLink\<close>: the form's data either carries the (non-empty) id of the link being
  edited, whose fields it then overwrites, or no id, and a new link is appended. \<^verbatim>\<open>generateId()\<close> and
  \<^verbatim>\<open>Date.now()\<close> are inputs of the model (\<open>newId\<close>, \<open>now\<close>).
\<close>

record LinkData =
  data_id :: "string option"
  data_title :: string
  data_url :: string
  data_description :: "string option"
  data_categoryId :: string
  data_subLinks :: "SubLink list"

definition handleSaveLink :: "string \<Rightarrow> int \<Rightarrow> LinkData \<Rightarrow> AppState \<Rightarrow> AppState" where
  "handleSaveLink newId now linkData st =
     (if data_id linkData \<noteq> None \<and> data_id linkData \<noteq> Some []
      then st\<lparr>links := map (\<lambda>l. if Some (link_id l) = data_id linkData
                                  then l\<lparr>link_title := data_title linkData,
                                         link_url := data_url linkData,
                                         link_description := data_description linkData,
                                         link_categoryId := data_categoryId linkData,
                                         link_subLinks := data_subLinks linkData\<rparr>
                                  else l) (links st)\<rparr>
      else st\<lparr>links := links st @
                  [\<lparr>link_id = newId,
                    link_title = data_title linkData,
                    link_url = data_url linkData,
                    link_description = data_description linkData,
                    link_categoryId = data_categoryId linkData,
                    link_createdAt = now,
                    link_order = int (length (links st)),
                    link_subLinks = data_subLinks linkData\<rparr>]\<rparr>)"

section \<open>Drag and drop\<close>

text \<open>\<^verbatim>\<open>handleDragStart\<close> records the dragged item.\<close>

definition handleDragStart :: "AppState \<Rightarrow> DragItem \<Rightarrow> AppState" where
  "handleDragStart st item = st\<lparr>draggedItem := Some item\<rparr>"

text \<open>
  \<^verbatim>\<open>handleDragOver\<close>: for a dragged link the drop position is \<^verbatim>\<open>BEFORE\<close> when the pointer
  is left of the hovered element's horizontal centre, else \<^verbatim>\<open>AFTER\<close>. The comparison
  \<^verbatim>\<open>hoverClientX < hoverMiddleX\<close> of two screen coordinates is the input \<open>leftOfCentre\<close>.
\<close>

definition handleDragOver :: "AppState \<Rightarrow> string \<Rightarrow> bool \<Rightarrow> AppState" where
  "handleDragOver st i leftOfCentre =
     (case draggedItem st of
        None \<Rightarrow> st\<lparr>dragOverId := Some i\<rparr>
      | Some d \<Rightarrow>
          (if drag_type d \<noteq> LINK then st\<lparr>dragOverId := Some i\<rparr>
           else st\<lparr>dragOverId := Some i,
                   dropPosition := Some (if leftOfCentre then BEFORE else AFTER)\<rparr>))"

definition handleDragEnd :: "AppState \<Rightarrow> AppState" where
  "handleDragEnd st = st\<lparr>draggedItem := None, dragOverId := None, dropPosition := None\<rparr>"

text \<open>
  The updater that \<^verbatim>\<open>handleDropWithState\<close> passes to \<^verbatim>\<open>setCategories\<close> when a category is
  dropped on a category. Both indices are looked up before the dragged category is
  taken out. \<^verbatim>\<open>const [moved] = items.splice(oldIndex, 1)\<close> takes the first removed element;
  \<open>oldIndex\<close> is an index of the array, so there is one (lemma \<open>splice_found\<close> below), and
  the other branch of the \<open>case\<close> is never taken.
\<close>

definition dropCategories :: "string \<Rightarrow> string \<Rightarrow> Category list \<Rightarrow> Category list" where
  "dropCategories draggedId targetId prev =
     (let items = prev;
          oldIndex = findIndex (\<lambda>i. cat_id i = draggedId) items;
          newIndex = findIndex (\<lambda>i. cat_id i = targetId) items
      in if oldIndex \<noteq> - 1 \<and> newIndex \<noteq> - 1
         then (case splice_js oldIndex 1 [] items of
                 (moved # _, items1) \<Rightarrow>
                   map_index (\<lambda>item idx. item\<lparr>cat_order := int idx\<rparr>)
                     (snd (splice_js newIndex 0 [moved] items1))
               | ([], _) \<Rightarrow> prev)
         else prev)"

text \<open>
  The updater passed to \<^verbatim>\<open>setLinks\<close> when a link is dropped. \<^verbatim>\<open>allLinks\<close> is a shallow copy
  of the previous array, so the assignment \<^verbatim>\<open>draggedLink.categoryId = ...\<close> writes to the
  element at \<open>draggedLinkIndex\<close>; the target's index is looked up again after the removal.
\<close>

definition dropLinks ::
  "DropPosition option \<Rightarrow> string \<Rightarrow> string \<Rightarrow> ItemType \<Rightarrow> LinkItem list \<Rightarrow> LinkItem list" where
  "dropLinks dropPos draggedId targetId type prevLinks =
     (let allLinks = prevLinks;
          draggedLinkIndex = findIndex (\<lambda>l. link_id l = draggedId) allLinks
      in if draggedLinkIndex = - 1 then prevLinks
         else if type = LINK then
           (let targetLinkIndex = findIndex (\<lambda>l. link_id l = targetId) allLinks
            in if targetLinkIndex = - 1 then prevLinks
               else
                 (let draggedLink = allLinks ! nat draggedLinkIndex;
                      targetLink = allLinks ! nat targetLinkIndex
                  in if draggedLinkIndex = targetLinkIndex then prevLinks
                     else
                       (let allLinks1 = allLinks[nat draggedLinkIndex :=
                              draggedLink\<lparr>link_categoryId := link_categoryId targetLink\<rparr>]
                        in case splice_js draggedLinkIndex 1 [] allLinks1 of
                             (removed # _, allLinks2) \<Rightarrow>
                               (let newTargetIndex0 =
                                      findIndex (\<lambda>l. link_id l = targetId) allLinks2;
                                    newTargetIndex =
                                      (if dropPos = Some AFTER then newTargetIndex0 + 1
                                       else newTargetIndex0)
                                in map_index (\<lambda>l idx. l\<lparr>link_order := int idx\<rparr>)
                                     (snd (splice_js newTargetIndex 0 [removed] allLinks2)))
                           | ([], _) \<Rightarrow> prevLinks)))
         else
           map (\<lambda>l. if link_id l = draggedId then l\<lparr>link_categoryId := targetId\<rparr> else l)
               allLinks)"

text \<open>
  \<^verbatim>\<open>handleDropWithState\<close>: clears the hover state, and (when something is being dragged)
  runs the two updaters with the dragged item and the drop position of the state the
  handler was created in, then clears the dragged item.
\<close>

definition handleDropWithState :: "AppState \<Rightarrow> string \<Rightarrow> ItemType \<Rightarrow> AppState" where
  "handleDropWithState st targetId type =
     (case draggedItem st of
        None \<Rightarrow> st\<lparr>dragOverId := None, dropPosition := None\<rparr>
      | Some d \<Rightarrow>
          st\<lparr>categories :=
                (if drag_type d = CATEGORY \<and> type = CATEGORY
                 then dropCategories (drag_id d) targetId (categories st)
                 else categories st),
              links :=
                (if drag_type d = LINK
                 then dropLinks (dropPosition st) (drag_id d) targetId type (links st)
                 else links st),
              draggedItem := None, dragOverId := None, dropPosition := None\<rparr>)"

text \<open>The seed data of the source (\<^verbatim>\<open>SEED_DATA\<close>), with \<^verbatim>\<open>Date.now()\<close> as \<open>now\<close>.\<close>

definition SEED_categories :: "Category list" where
  "SEED_categories =
     [\<lparr>cat_id = ''cat_dev'', cat_name = ''Development'', cat_order = 0\<rparr>,
      \<lparr>cat_id = ''cat_design'', cat_name = ''Design'', cat_order = 1\<rparr>,
      \<lparr>cat_id = ''cat_news'', cat_name = ''Reading'', cat_order = 2\<rparr>]"

definition SEED_links :: "int \<Rightarrow> LinkItem list" where
  "SEED_links now =
     [\<lparr>link_id = ''link_1'', link_title = ''GitHub'', link_url = ''https://github.com'',
       link_description = Some ''Where the world builds software.'',
       link_categoryId = ''cat_dev'', link_createdAt = now, link_order = 0,
       link_subLinks =
         [\<lparr>sub_id = ''sub_1'', sub_title = ''Issues'', sub_url = ''https://github.com/issues''\<rparr>,
          \<lparr>sub_id = ''sub_2'', sub_title = ''Pull Requests'',
            sub_url = ''https://github.com/pulls''\<rparr>]\<rparr>,
      \<lparr>link_id = ''link_2'', link_title = ''React'', link_url = ''https://react.dev'',
       link_description = Some ''The library for web and native user interfaces.'',
       link_categoryId = ''cat_dev'', link_createdAt = now, link_order = 1,
       link_subLinks = []\<rparr>,
      \<lparr>link_id = ''link_3'', link_title = ''Figma'', link_url = ''https://www.figma.com'',
       link_description = Some ''Collaborative interface design tool.'',
       link_categoryId = ''cat_design'', link_createdAt = now, link_order = 0,
       link_subLinks = []\<rparr>]"

definition SEED_state :: "int \<Rightarrow> AppState" where
  "SEED_state now =
     \<lparr>categories = SEED_categories, links = SEED_links now, searchQuery = [],
      selectedCategory = ''ALL'', deleteTarget = None, draggedItem = None,
      dragOverId = None, dropPosition = None\<rparr>"

section \<open>Drag gestures, and the reordering as the specification words it\<close>

text \<open>
  One complete gesture of dragging the link \<open>draggedId\<close> over the card of the link
  \<open>targetId\<close> and dropping it there: \<^verbatim>\<open>onDragStart\<close>, \<^verbatim>\<open>onDragOver\<close>, \<^verbatim>\<open>onDrop\<close> of a
  \<^verbatim>\<open>LinkCard\<close>, in this order. The flag says whether the pointer was left of the card's centre.
\<close>

fun linkOverLink :: "string \<times> string \<times> bool \<Rightarrow> AppState \<Rightarrow> AppState" where
  "linkOverLink (draggedId, targetId, leftOfCentre) st =
     handleDropWithState
       (handleDragOver
          (handleDragStart st \<lparr>drag_type = LINK, drag_id = draggedId, drag_categoryId = None\<rparr>)
          targetId leftOfCentre)
       targetId LINK"

text \<open>
  The operations the specification names: the index of the first element with a property,
  taking the element at an index out, putting an element in at an index.
\<close>

definition index_of :: "('a \<Rightarrow> bool) \<Rightarrow> 'a list \<Rightarrow> nat" where
  "index_of p xs = length (takeWhile (\<lambda>x. \<not> p x) xs)"

definition remove_at :: "nat \<Rightarrow> 'a list \<Rightarrow> 'a list" where
  "remove_at i xs = take i xs @ drop (Suc i) xs"

definition insert_at :: "nat \<Rightarrow> 'a \<Rightarrow> 'a list \<Rightarrow> 'a list" where
  "insert_at k x xs = take k xs @ x # drop k xs"

text \<open>
  Link over link, in the specification's words: the dragged link takes the target's
  category, is removed from the flat list and is put in at the index the target has after
  the removal, plus one for \<^verbatim>\<open>AFTER\<close>. (The renumbering of \<^verbatim>\<open>order\<close> follows.)
\<close>

definition spec_link_drop ::
  "DropPosition option \<Rightarrow> string \<Rightarrow> string \<Rightarrow> LinkItem list \<Rightarrow> LinkItem list" where
  "spec_link_drop pos draggedId targetId ls =
     (let i = index_of (\<lambda>l. link_id l = draggedId) ls;
          target = ls ! index_of (\<lambda>l. link_id l = targetId) ls;
          dragged = (ls ! i)\<lparr>link_categoryId := link_categoryId target\<rparr>;
          rest = remove_at i ls;
          k = index_of (\<lambda>l. link_id l = targetId) rest + (if pos = Some AFTER then 1 else 0)
      in insert_at k dragged rest)"

text \<open>
  Category over category, in the specification's words: the dragged category is removed
  and put in at the index the target has after the removal.
\<close>

definition spec_category_drop :: "string \<Rightarrow> string \<Rightarrow> Category list \<Rightarrow> Category list" where
  "spec_category_drop draggedId targetId cs =
     (let i = index_of (\<lambda>c. cat_id c = draggedId) cs;
          rest = remove_at i cs;
          k = index_of (\<lambda>c. cat_id c = targetId) rest
      in insert_at k (cs ! i) rest)"

text \<open>The order fields are the positions in the list (0-based).\<close>

definition links_renumbered :: "LinkItem list \<Rightarrow> bool" where
  "links_renumbered ls = (map link_order ls = map int [0..<length ls])"

definition categories_renumbered :: "Category list \<Rightarrow> bool" where
  "categories_renumbered cs = (map cat_order cs = map int [0..<length cs])"

text \<open>
  Three links with distinct orders in two categories, for the examples of the reordering:
  \<open>a\<close> and \<open>c\<close> in category \<open>X\<close>, \<open>b\<close> in category \<open>Y\<close>.
\<close>

definition demo_link :: "string \<Rightarrow> string \<Rightarrow> int \<Rightarrow> LinkItem" where
  "demo_link i c n =
     \<lparr>link_id = i, link_title = i, link_url = ''https://example.org/'' @ i,
      link_description = None, link_categoryId = c, link_createdAt = 0, link_order = n,
      link_subLinks = []\<rparr>"

definition demo_state :: AppState where
  "demo_state =
     \<lparr>categories =
        [\<lparr>cat_id = ''X'', cat_name = ''X'', cat_order = 0\<rparr>,
         \<lparr>cat_id = ''Y'', cat_name = ''Y'', cat_order = 1\<rparr>],
      links = [demo_link ''b'' ''Y'' 0, demo_link ''a'' ''X'' 1, demo_link ''c'' ''X'' 2],
      searchQuery = [], selectedCategory = ''ALL'', deleteTarget = None, draggedItem = None,
      dragOverId = None, dropPosition = None\<rparr>"

section \<open>Search filter\<close>

text \<open>
  \<^verbatim>\<open>String.prototype.toLowerCase\<close> is the runtime's: the Unicode lower-case mapping, which
  depends on the neighbours of a character and can change the length of a text. The
  source only calls it, so it is an input of the model.
\<close>

record Runtime =
  toLowerCase :: "string \<Rightarrow> string"

text \<open>
  \<^verbatim>\<open>String.prototype.trim\<close> takes the white space and line terminators of ECMAScript off
  both ends: U+0009 to U+000D, U+0020, U+00A0, U+1680, U+2000 to U+200A, U+2028, U+2029,
  U+202F, U+205F, U+3000 and U+FEFF, here in UTF-8.
\<close>

definition whiteSpaces :: "string list" where
  "whiteSpaces =
     [[CHR 0x09], [CHR 0x0A], [CHR 0x0B], [CHR 0x0C], [CHR 0x0D], [CHR 0x20],
      [CHR 0xC2, CHR 0xA0],
      [CHR 0xE1, CHR 0x9A, CHR 0x80],
      [CHR 0xE2, CHR 0x80, CHR 0x80], [CHR 0xE2, CHR 0x80, CHR 0x81],
      [CHR 0xE2, CHR 0x80, CHR 0x82], [CHR 0xE2, CHR 0x80, CHR 0x83],
      [CHR 0xE2, CHR 0x80, CHR 0x84], [CHR 0xE2, CHR 0x80, CHR 0x85],
      [CHR 0xE2, CHR 0x80, CHR 0x86], [CHR 0xE2, CHR 0x80, CHR 0x87],
      [CHR 0xE2, CHR 0x80, CHR 0x88], [CHR 0xE2, CHR 0x80, CHR 0x89],
      [CHR 0xE2, CHR 0x80, CHR 0x8A],
      [CHR 0xE2, CHR 0x80, CHR 0xA8], [CHR 0xE2, CHR 0x80, CHR 0xA9],
      [CHR 0xE2, CHR 0x80, CHR 0xAF],
      [CHR 0xE2, CHR 0x81, CHR 0x9F],
      [CHR 0xE3, CHR 0x80, CHR 0x80],
      [CHR 0xEF, CHR 0xBB, CHR 0xBF]]"

function trimStart :: "string \<Rightarrow> string" where
  "trimStart s =
     (case find (\<lambda>w. prefix w s) whiteSpaces of
        None \<Rightarrow> s
      | Some w \<Rightarrow> trimStart (drop (length w) s))"
  by pat_completeness auto
termination
proof (relation "measure length")
  show "wf (measure length)" by simp
next
  fix s w :: string
  assume "find (\<lambda>w. prefix w s) whiteSpaces = Some w"
  then have "w \<in> set whiteSpaces" and p: "prefix w s"
    by (auto simp: find_Some_iff)
  then have "w \<noteq> []" by (auto simp: whiteSpaces_def)
  with p have "length (drop (length w) s) < length s"
    by (cases s) (auto simp: prefix_def)
  then show "(drop (length w) s, s) \<in> measure length" by simp
qed

declare trimStart.simps [simp del]

function trimEnd :: "string \<Rightarrow> string" where
  "trimEnd s =
     (case find (\<lambda>w. suffix w s) whiteSpaces of
        None \<Rightarrow> s
      | Some w \<Rightarrow> trimEnd (take (length s - length w) s))"
  by pat_completeness auto
termination
proof (relation "measure length")
  show "wf (measure length)" by simp
next
  fix s w :: string
  assume "find (\<lambda>w. suffix w s) whiteSpaces = Some w"
  then have "w \<in> set whiteSpaces" and p: "suffix w s"
    by (auto simp: find_Some_iff)
  then have "w \<noteq> []" by (auto simp: whiteSpaces_def)
  with p have "length (take (length s - length w) s) < length s"
    by (cases s) (auto simp: suffix_def)
  then show "(take (length s - length w) s, s) \<in> measure length" by simp
qed

declare trimEnd.simps [simp del]

definition trim :: "string \<Rightarrow> string" where
  "trim s = trimEnd (trimStart s)"

text \<open>\<^verbatim>\<open>s.includes(q)\<close>: \<open>q\<close> occurs in \<open>s\<close> as a run of consecutive characters.\<close>

definition includes_str :: "string \<Rightarrow> string \<Rightarrow> bool" where
  "includes_str s q = sublist q s"

text \<open>
  \<^verbatim>\<open>arr.sort((a, b) => a.order - b.order)\<close>: ascending by \<^verbatim>\<open>order\<close>, elements of equal
  order in their previous sequence (the sort of ECMAScript is stable).
\<close>

definition sortByOrder :: "LinkItem list \<Rightarrow> LinkItem list" where
  "sortByOrder ls = sort_key link_order ls"

text \<open>
  \<^verbatim>\<open>getFilteredLinks\<close>, with the runtime and the \<^verbatim>\<open>searchQuery\<close> of the component's state as
  first arguments. The test for an empty query trims the query; the query that is matched
  is lower-cased, not trimmed. A link without description does not match by its description.
\<close>

definition getFilteredLinks :: "Runtime \<Rightarrow> string \<Rightarrow> LinkItem list \<Rightarrow> LinkItem list" where
  "getFilteredLinks R query linkList =
     (if trim query = [] then sortByOrder linkList
      else
        (let q = toLowerCase R query
         in sortByOrder
              (filter (\<lambda>l. includes_str (toLowerCase R (link_title l)) q \<or>
                            includes_str (toLowerCase R (link_url l)) q \<or>
                            (case link_description l of
                               None \<Rightarrow> False
                             | Some de \<Rightarrow> includes_str (toLowerCase R de) q) \<or>
                            list_ex (\<lambda>sl. includes_str (toLowerCase R (sub_title sl)) q)
                              (link_subLinks l))
                 linkList)))"

section \<open>The filter in the words of the specification\<close>




text \<open>
  What the specification says: the query occurs in a searched text up to case. Two ASCII
  characters are the same up to case when they are equal or are the capital and the small
  form of one letter; a text contains the query up to case when one of its runs of
  consecutive characters agrees with the query, character by character, up to case. (A
  run that is the query itself is such a run.)
\<close>

definition upper_letters :: string where
  "upper_letters = ''ABCDEFGHIJKLMNOPQRSTUVWXYZ''"

definition lower_letters :: string where
  "lower_letters = ''abcdefghijklmnopqrstuvwxyz''"





definition asciiLower_char :: "char \<Rightarrow> char" where
  "asciiLower_char c =
     (case map_of (zip upper_letters lower_letters) c of Some l \<Rightarrow> l | None \<Rightarrow> c)"

definition asciiLower :: "string \<Rightarrow> string" where
  "asciiLower s = map asciiLower_char s"


text \<open>
  A runtime for the examples: the values of \<^verbatim>\<open>toLowerCase\<close> at the Greek texts \<open>\<Alpha>\<Sigma>\<close> (which
  gives \<open>\<alpha>\<varsigma>\<close>, with the final form of the small sigma) and \<open>\<Sigma>\<close> (which gives \<open>\<sigma>\<close>), and
  the ASCII lower-casing at every other text; the examples use no other text that is
  not ASCII.
\<close>

definition demo_runtime :: Runtime where
  "demo_runtime =
     \<lparr>toLowerCase = (\<lambda>s.
        if s = [CHR 0xCE, CHR 0x91, CHR 0xCE, CHR 0xA3]
        then [CHR 0xCE, CHR 0xB1, CHR 0xCF, CHR 0x82]
        else if s = [CHR 0xCE, CHR 0xA3] then [CHR 0xCF, CHR 0x83]
        else asciiLower s)\<rparr>"


section \<open>The worker: values, requests, responses\<close>

text \<open>
  The server is one \<^verbatim>\<open>fetch\<close> handler over a key-value store. A parsed JSON document is a
  \<open>jsonValue\<close>. A number is kept as the text \<^verbatim>\<open>Number.prototype.toString\<close> prints for it
  (\<^verbatim>\<open>0\<close> for both zeros, \<^verbatim>\<open>1.5\<close>, \<^verbatim>\<open>1e+21\<close>), which is all the handler reads of it. A later
  duplicate of a key of an object hides the earlier one, as \<^verbatim>\<open>JSON.parse\<close> has it.
\<close>

datatype jsonValue =
    JNull
  | JBool bool
  | JNum string
  | JStr string
  | JArr "jsonValue list"
  | JObj "(string \<times> jsonValue) list"

text \<open>
  \<^verbatim>\<open>body?.key\<close>: the property of an object, \<open>None\<close> for \<^verbatim>\<open>undefined\<close>: a missing key, or a
  body that is \<^verbatim>\<open>null\<close>, an array, a string, a number or a boolean.
\<close>

fun jsProp :: "jsonValue \<Rightarrow> string \<Rightarrow> jsonValue option" where
  "jsProp (JObj kvs) key = map_of (rev kvs) key"
| "jsProp _ key = None"

text \<open>The values that count as true in \<^verbatim>\<open>if (v)\<close>, \<^verbatim>\<open>!v\<close> and \<^verbatim>\<open>v || w\<close>.\<close>

fun truthy :: "jsonValue \<Rightarrow> bool" where
  "truthy JNull = False"
| "truthy (JBool b) = b"
| "truthy (JNum n) = (n \<noteq> ''0'')"
| "truthy (JStr s) = (s \<noteq> [])"
| "truthy (JArr _) = True"
| "truthy (JObj _) = True"

text \<open>\<^verbatim>\<open>v || ""\<close> for a possibly undefined \<open>v\<close>.\<close>

definition orEmpty :: "jsonValue option \<Rightarrow> jsonValue" where
  "orEmpty v = (case v of None \<Rightarrow> JStr [] | Some x \<Rightarrow> if truthy x then x else JStr [])"

text \<open>The decimal digits of a natural number, as a template literal prints it.\<close>

fun decimal :: "nat \<Rightarrow> string" where
  "decimal n =
     (if n < 10 then [''0123456789'' ! n]
      else decimal (n div 10) @ [''0123456789'' ! (n mod 10)])"

definition joinComma :: "string list \<Rightarrow> string" where
  "joinComma ss = (case ss of [] \<Rightarrow> [] | s # rest \<Rightarrow> s @ concat (map (\<lambda>t. CHR '','' # t) rest))"

text \<open>
  \<^verbatim>\<open>v.toString()\<close> of a value: a string is itself, a number is its text, an array joins the
  strings of its
  elements with commas (\<^verbatim>\<open>null\<close> elements give the empty string), an object is
  \<^verbatim>\<open>[object Object]\<close>. An object with a key \<^verbatim>\<open>toString\<close> of its own has no callable
  \<^verbatim>\<open>toString\<close>: the call throws a \<^verbatim>\<open>TypeError\<close>, here \<open>None\<close>.
\<close>

fun toString :: "jsonValue \<Rightarrow> string option" where
  "toString JNull = None"
| "toString (JBool b) = Some (if b then ''true'' else ''false'')"
| "toString (JNum n) = Some n"
| "toString (JStr s) = Some s"
| "toString (JArr xs) =
     (let ss = map (\<lambda>x. if x = JNull then Some [] else toString x) xs
      in if None \<in> set ss then None else Some (joinComma (map the ss)))"
| "toString (JObj kvs) =
     (if ''toString'' \<in> set (map fst kvs) then None else Some ''[object Object]'')"

text \<open>
  What the platform provides and the source only calls: the SHA-256 digest of
  \<^verbatim>\<open>crypto.subtle\<close> (of the UTF-8 bytes of a string), \<^verbatim>\<open>encodeURIComponent\<close>, and
  \<^verbatim>\<open>decodeURIComponent\<close>, which throws a \<^verbatim>\<open>URIError\<close> (\<open>None\<close>) on a malformed escape.
\<close>

record Platform =
  sha256 :: "string \<Rightarrow> 8 word list"
  encodeURIComponent :: "string \<Rightarrow> string"
  decodeURIComponent :: "string \<Rightarrow> string option"

text \<open>
  The two documents of the store \<^verbatim>\<open>LINKS_KV\<close>: the configuration under
  \<^verbatim>\<open>app_config_v1\<close>, read at its declared type \<^verbatim>\<open>AppConfig\<close>, and the data under
  \<^verbatim>\<open>links_data_v1\<close>, which is whatever JSON document was last posted.
\<close>

record AppConfig =
  passwordHash :: "string option"

record Env =
  config_doc :: "AppConfig option"
  data_doc :: "jsonValue option"

text \<open>
  A request, as far as the handler reads it: \<^verbatim>\<open>req.method\<close> (\<open>httpMethod\<close>), path of the URL, the \<^verbatim>\<open>Cookie\<close>
  header, and the outcome of \<^verbatim>\<open>req.json()\<close>, \<open>None\<close> when the body does not parse.
\<close>

record Request =
  httpMethod :: string
  pathname :: string
  cookieHeader :: "string option"
  body :: "jsonValue option"

record Response =
  status :: nat
  content :: jsonValue
  headers :: "(string \<times> string) list"

text \<open>
  The handler answers, or hands the request to the static assets, or an exception leaves
  it uncaught (the name of the exception is kept).
\<close>

datatype Outcome = Respond Response | Assets | Thrown string

definition DEFAULT_PASSWORD :: string where
  "DEFAULT_PASSWORD = ''linkmanager''"

definition AUTH_COOKIE :: string where
  "AUTH_COOKIE = ''LM_AUTH''"

text \<open>\<^verbatim>\<open>json(data, init)\<close>: the content type is added to the headers given.\<close>

definition json :: "jsonValue \<Rightarrow> nat \<Rightarrow> (string \<times> string) list \<Rightarrow> Response" where
  "json data st hs =
     \<lparr>status = st, content = data,
      headers = (if ''Content-Type'' \<in> set (map fst hs) then hs
                 else hs @ [(''Content-Type'', ''application/json; charset=utf-8'')])\<rparr>"

section \<open>The worker: cookies and the password hash\<close>

text \<open>\<^verbatim>\<open>s.split(d)\<close> for a one-character separator: never empty.\<close>

fun splitOn :: "char \<Rightarrow> string \<Rightarrow> string list" where
  "splitOn d [] = [[]]"
| "splitOn d (c # cs) =
     (if c = d then [] # splitOn d cs
      else (case splitOn d cs of p # ps \<Rightarrow> (c # p) # ps | [] \<Rightarrow> [[c]]))"

text \<open>\<^verbatim>\<open>cookie.split(/; */)\<close>: a separator is a semicolon with the spaces that follow it.\<close>

function splitCookie :: "string \<Rightarrow> string list" where
  "splitCookie [] = [[]]"
| "splitCookie (c # cs) =
     (if c = CHR '';'' then [] # splitCookie (dropWhile (\<lambda>x. x = CHR '' '') cs)
      else (case splitCookie cs of p # ps \<Rightarrow> (c # p) # ps | [] \<Rightarrow> [[c]]))"
  by pat_completeness auto
termination
  by (relation "measure length") (auto simp: length_dropWhile_le less_Suc_eq_le)

text \<open>
  \<^verbatim>\<open>getCookie\<close>: the value of the first part \<^verbatim>\<open>k=v\<close> of the header whose \<open>k\<close> is the name and
  whose \<open>v\<close> (the text up to a second \<^verbatim>\<open>=\<close>) is not empty, decoded; \<open>Inl\<close> is the exception.
\<close>

fun findCookie :: "Platform \<Rightarrow> string \<Rightarrow> string list \<Rightarrow> string + string option" where
  "findCookie P name [] = Inr None"
| "findCookie P name (part # parts) =
     (case splitOn CHR ''=''  part of
        k # v # _ \<Rightarrow>
          (if k = name \<and> v \<noteq> []
           then (case decodeURIComponent P v of
                   None \<Rightarrow> Inl ''URIError''
                 | Some t \<Rightarrow> Inr (Some t))
           else findCookie P name parts)
      | _ \<Rightarrow> findCookie P name parts)"

definition getCookie :: "Platform \<Rightarrow> Request \<Rightarrow> string \<Rightarrow> string + string option" where
  "getCookie P req name =
     (case cookieHeader req of
        None \<Rightarrow> Inr None
      | Some cookie \<Rightarrow>
          if cookie = [] then Inr None else findCookie P name (splitCookie cookie))"

text \<open>
  \<^verbatim>\<open>hashPassword\<close>: the digest, each byte as two small hexadecimal digits.
\<close>

definition hexDigit :: "nat \<Rightarrow> char" where
  "hexDigit n = ''0123456789abcdef'' ! n"

definition hexByte :: "8 word \<Rightarrow> string" where
  "hexByte b = [hexDigit (unat b div 16), hexDigit (unat b mod 16)]"

definition hashPassword :: "Platform \<Rightarrow> string \<Rightarrow> string" where
  "hashPassword P password = concat (map hexByte (sha256 P password))"

definition getConfig :: "Env \<Rightarrow> AppConfig" where
  "getConfig env = (case config_doc env of None \<Rightarrow> \<lparr>passwordHash = None\<rparr> | Some cfg \<Rightarrow> cfg)"

definition saveConfig :: "Env \<Rightarrow> AppConfig \<Rightarrow> Env" where
  "saveConfig env cfg = env\<lparr>config_doc := Some cfg\<rparr>"

text \<open>The hash in force: the stored one if there is a non-empty one, else the default's.\<close>

definition getCurrentPasswordHash :: "Platform \<Rightarrow> Env \<Rightarrow> string" where
  "getCurrentPasswordHash P env =
     (case passwordHash (getConfig env) of
        Some h \<Rightarrow> if h \<noteq> [] then h else hashPassword P DEFAULT_PASSWORD
      | None \<Rightarrow> hashPassword P DEFAULT_PASSWORD)"

definition isAuthenticated :: "Platform \<Rightarrow> Request \<Rightarrow> Env \<Rightarrow> string + bool" where
  "isAuthenticated P req env =
     (case getCookie P req AUTH_COOKIE of
        Inl e \<Rightarrow> Inl e
      | Inr None \<Rightarrow> Inr False
      | Inr (Some token) \<Rightarrow>
          if token = [] then Inr False else Inr (token = getCurrentPasswordHash P env))"

definition setAuthCookie :: "Platform \<Rightarrow> string \<Rightarrow> string" where
  "setAuthCookie P hash =
     AUTH_COOKIE @ ''='' @ encodeURIComponent P hash @
       ''; Path=/; HttpOnly; Secure; SameSite=Lax; Max-Age='' @ decimal (60 * 60 * 24 * 30)"

section \<open>The worker: the handler\<close>

text \<open>The response bodies the handler sends.\<close>

definition errorBody :: "string \<Rightarrow> jsonValue" where
  "errorBody msg = JObj [(''error'', JStr msg)]"

definition okBody :: jsonValue where
  "okBody = JObj [(''ok'', JBool True)]"

definition emptyDataset :: jsonValue where
  "emptyDataset = JObj [(''categories'', JArr []), (''links'', JArr [])]"

text \<open>
  The branches of \<^verbatim>\<open>fetch\<close>, in the order of the source. Each returns the outcome and the
  store after the request.
\<close>

definition handleAuthStatus :: "Platform \<Rightarrow> Env \<Rightarrow> Request \<Rightarrow> Outcome \<times> Env" where
  "handleAuthStatus P env req =
     (case isAuthenticated P req env of
        Inl e \<Rightarrow> (Thrown e, env)
      | Inr ok \<Rightarrow> (Respond (json (JObj [(''authenticated'', JBool ok)]) 200 []), env))"

definition handleLogin :: "Platform \<Rightarrow> Env \<Rightarrow> Request \<Rightarrow> Outcome \<times> Env" where
  "handleLogin P env req =
     (case body req of
        None \<Rightarrow> (Respond (json (errorBody ''Invalid JSON'') 400 []), env)
      | Some b \<Rightarrow>
          (case toString (orEmpty (jsProp b ''password'')) of
             None \<Rightarrow> (Thrown ''TypeError'', env)
           | Some password \<Rightarrow>
               if password = [] then (Respond (json (errorBody ''Password required'') 400 []), env)
               else
                 (let currentHash = getCurrentPasswordHash P env;
                      inputHash = hashPassword P password
                  in if inputHash \<noteq> currentHash
                     then (Respond (json (errorBody ''Wrong password'') 401 []), env)
                     else (Respond (json okBody 200
                                      [(''Set-Cookie'', setAuthCookie P currentHash)]), env))))"

definition handleChangePassword :: "Platform \<Rightarrow> Env \<Rightarrow> Request \<Rightarrow> Outcome \<times> Env" where
  "handleChangePassword P env req =
     (case isAuthenticated P req env of
        Inl e \<Rightarrow> (Thrown e, env)
      | Inr False \<Rightarrow> (Respond (json (errorBody ''Unauthorized'') 401 []), env)
      | Inr True \<Rightarrow>
          (case body req of
             None \<Rightarrow> (Respond (json (errorBody ''Invalid JSON'') 400 []), env)
           | Some b \<Rightarrow>
               (case toString (orEmpty (jsProp b ''oldPassword'')) of
                  None \<Rightarrow> (Thrown ''TypeError'', env)
                | Some oldPassword \<Rightarrow>
                    (case toString (orEmpty (jsProp b ''newPassword'')) of
                       None \<Rightarrow> (Thrown ''TypeError'', env)
                     | Some newPassword \<Rightarrow>
                         if oldPassword = [] \<or> newPassword = []
                         then (Respond (json (errorBody
                                  ''oldPassword and newPassword are required'') 400 []), env)
                         else
                           (let currentHash = getCurrentPasswordHash P env;
                                oldHash = hashPassword P oldPassword
                            in if oldHash \<noteq> currentHash
                               then (Respond (json (errorBody ''Old password incorrect'') 400 []),
                                     env)
                               else
                                 (let newHash = hashPassword P newPassword;
                                      cfg = getConfig env
                                  in (Respond (json okBody 200
                                                 [(''Set-Cookie'', setAuthCookie P newHash)]),
                                      saveConfig env (cfg\<lparr>passwordHash := Some newHash\<rparr>))))))))"

text \<open>
  The data branch reads \<^verbatim>\<open>req.json()\<close> outside any \<^verbatim>\<open>try\<close>: a body that does not parse
  is a \<^verbatim>\<open>SyntaxError\<close> that nothing catches.
\<close>

definition handleData :: "Platform \<Rightarrow> Env \<Rightarrow> Request \<Rightarrow> Outcome \<times> Env" where
  "handleData P env req =
     (case isAuthenticated P req env of
        Inl e \<Rightarrow> (Thrown e, env)
      | Inr False \<Rightarrow> (Respond (json (errorBody ''Unauthorized'') 401 []), env)
      | Inr True \<Rightarrow>
          if httpMethod req = ''GET''
          then (Respond (json (case data_doc env of
                                 None \<Rightarrow> emptyDataset
                               | Some data \<Rightarrow> if truthy data then data else emptyDataset)
                           200 []), env)
          else if httpMethod req = ''POST''
          then (case body req of
                  None \<Rightarrow> (Thrown ''SyntaxError'', env)
                | Some b \<Rightarrow> (Respond (json okBody 200 []), env\<lparr>data_doc := Some b\<rparr>))
          else (Respond (json (errorBody ''Method not allowed'') 405 []), env))"

definition fetch :: "Platform \<Rightarrow> Env \<Rightarrow> Request \<Rightarrow> Outcome \<times> Env" where
  "fetch P env req =
     (if pathname req = ''/api/auth-status'' \<and> httpMethod req = ''GET''
      then handleAuthStatus P env req
      else if pathname req = ''/api/login'' \<and> httpMethod req = ''POST''
      then handleLogin P env req
      else if pathname req = ''/api/change-password'' \<and> httpMethod req = ''POST''
      then handleChangePassword P env req
      else if pathname req = ''/api/data''
      then handleData P env req
      else (Assets, env))"

section \<open>The authentication contract of the specification, on the handler\<close>

text \<open>
  The specification speaks of \<open>authenticate(password)\<close>, \<open>changePassword(old, new)\<close> and
  \<open>isRequestAuthenticated(cookie)\<close>. On the code these are: a login request with the
  password is answered with status 200; a change-password request; \<^verbatim>\<open>isAuthenticated\<close>.
\<close>

definition loginRequest :: "string \<Rightarrow> Request" where
  "loginRequest password =
     \<lparr>httpMethod = ''POST'', pathname = ''/api/login'', cookieHeader = None,
      body = Some (JObj [(''password'', JStr password)])\<rparr>"

definition authenticate :: "Platform \<Rightarrow> Env \<Rightarrow> string \<Rightarrow> bool" where
  "authenticate P env password =
     (case fst (fetch P env (loginRequest password)) of
        Respond r \<Rightarrow> status r = 200
      | _ \<Rightarrow> False)"

definition changePasswordRequest :: "string option \<Rightarrow> string \<Rightarrow> string \<Rightarrow> Request" where
  "changePasswordRequest cookie old new =
     \<lparr>httpMethod = ''POST'', pathname = ''/api/change-password'', cookieHeader = cookie,
      body = Some (JObj [(''oldPassword'', JStr old), (''newPassword'', JStr new)])\<rparr>"

text \<open>
  The hash of a password is a text of small hexadecimal digits. Both URI functions of the
  platform leave such a text as it is (\<^verbatim>\<open>encodeURIComponent\<close> escapes no digit and no ASCII
  letter, \<^verbatim>\<open>decodeURIComponent\<close> changes only escapes); \<open>uriKeepsHex\<close> says so of a platform.
\<close>

definition hexText :: "string \<Rightarrow> bool" where
  "hexText s = (set s \<subseteq> set ''0123456789abcdef'')"

definition uriKeepsHex :: "Platform \<Rightarrow> bool" where
  "uriKeepsHex P =
     (\<forall>s. hexText s \<longrightarrow> encodeURIComponent P s = s \<and> decodeURIComponent P s = Some s)"

text \<open>
  A platform for the examples: the digest is the bytes of the text followed by the byte
  \<open>0x80\<close> (not SHA-256, but never empty and different for different texts), and the two URI
  functions are the identity on a text without \<^verbatim>\<open>%\<close>, which is all the examples use.
\<close>

definition demo_platform :: Platform where
  "demo_platform =
     \<lparr>sha256 = (\<lambda>s. map (\<lambda>c. of_nat (of_char c)) s @ [0x80]),
      encodeURIComponent = (\<lambda>s. s),
      decodeURIComponent = (\<lambda>s. if CHR ''%'' \<in> set s then None else Some s)\<rparr>"

definition empty_env :: Env where
  "empty_env = \<lparr>config_doc = None, data_doc = None\<rparr>"

section \<open>Facts about the array operations\<close>

lemma findIndex_conv:
  "findIndex p xs =
     (if \<exists>x \<in> set xs. p x then int (length (takeWhile (\<lambda>x. \<not> p x) xs)) else - 1)"
  by (induction xs) (auto simp: Let_def)

lemma findIndex_none: "findIndex p xs = - 1 \<longleftrightarrow> (\<forall>x \<in> set xs. \<not> p x)"
  by (simp add: findIndex_conv)

lemma findIndex_found:
  "findIndex p xs = int i \<Longrightarrow> i < length xs \<and> p (xs ! i) \<and> (\<forall>j < i. \<not> p (xs ! j))"
proof (induction xs arbitrary: i)
  case Nil
  then show ?case by simp
next
  case (Cons x xs)
  show ?case
  proof (cases "p x")
    case True
    with Cons.prems show ?thesis by simp
  next
    case False
    with Cons.prems obtain k where k: "findIndex p xs = int k" and i: "i = Suc k"
      by (cases i) (auto simp: Let_def split: if_splits)
    from Cons.IH [OF k] False i show ?thesis
      by (auto simp: nth_Cons split: nat.splits)
  qed
qed

lemma findIndex_first:
  assumes "i < length xs" "p (xs ! i)" "\<forall>j < i. \<not> p (xs ! j)"
  shows "findIndex p xs = int i"
proof -
  have "takeWhile (\<lambda>x. \<not> p x) xs = take i xs"
    using assms by (intro takeWhile_eq_take_P_nth) auto
  moreover have "\<exists>x \<in> set xs. p x" using assms nth_mem by blast
  ultimately show ?thesis using assms by (simp add: findIndex_conv)
qed

lemma splice_remove:
  "i < length xs \<Longrightarrow> splice_js (int i) 1 [] xs = ([xs ! i], take i xs @ drop (Suc i) xs)"
  by (simp add: splice_js_def Let_def take_Suc_conv_app_nth min_def
        flip: Cons_nth_drop_Suc)

lemma splice_found:
  "findIndex p xs = int i \<Longrightarrow>
     splice_js (int i) 1 [] xs = ([xs ! i], take i xs @ drop (Suc i) xs)"
  using findIndex_found [of p xs i] splice_remove [of i xs] by simp

lemma splice_insert:
  "k \<le> length xs \<Longrightarrow> snd (splice_js (int k) 0 [x] xs) = take k xs @ x # drop k xs"
  by (simp add: splice_js_def Let_def min_def)

lemma length_map_index [simp]: "length (map_index f xs) = length xs"
  by (simp add: map_index_def)

lemma nth_map_index [simp]: "i < length xs \<Longrightarrow> map_index f xs ! i = f (xs ! i) i"
  by (simp add: map_index_def)

lemma map_index_Nil [simp]: "map_index f [] = []"
  by (simp add: map_index_def)

section \<open>Deleting a category\<close>

lemma performDelete_category_general:
  assumes "deleteTarget st = Some t" "del_type t = CATEGORY"
  shows "categories (performDelete st) = filter (\<lambda>c. cat_id c \<noteq> del_id t) (categories st)"
    and "links (performDelete st) =
           map (\<lambda>l. if link_categoryId l = del_id t
                     then l\<lparr>link_categoryId := uncategorized\<rparr> else l) (links st)"
  using assms by (simp_all add: performDelete_def)

text \<open>
  Claim C5. Deleting a category C (confirming the delete dialog opened for C) removes C
  from the categories and keeps every other category; the link list keeps its length, and
  each link is the link that was at that place, with \<^verbatim>\<open>categoryId\<close> set to
  \<^verbatim>\<open>'uncategorized'\<close> if it was C's id and every other field as it was.
\<close>

theorem performDelete_category:
  fixes st :: AppState and cid nm :: string
  defines "st' \<equiv> performDelete (requestDeleteCategory st cid nm)"
  shows "(\<forall>c \<in> set (categories st'). cat_id c \<noteq> cid) \<and>
         categories st' = filter (\<lambda>c. cat_id c \<noteq> cid) (categories st) \<and>
         length (links st') = length (links st) \<and>
         (\<forall>i < length (links st).
            links st' ! i =
              (links st ! i)\<lparr>link_categoryId :=
                 (if link_categoryId (links st ! i) = cid then uncategorized
                  else link_categoryId (links st ! i))\<rparr>)"
proof -
  have t: "deleteTarget (requestDeleteCategory st cid nm)
             = Some \<lparr>del_type = CATEGORY, del_id = cid, del_name = nm\<rparr>"
    by (simp add: requestDeleteCategory_def)
  have c: "categories st' = filter (\<lambda>c. cat_id c \<noteq> cid) (categories st)"
    unfolding st'_def using performDelete_category_general(1) [OF t]
    by (simp add: requestDeleteCategory_def)
  have l: "links st' = map (\<lambda>l. if link_categoryId l = cid
                     then l\<lparr>link_categoryId := uncategorized\<rparr> else l) (links st)"
    unfolding st'_def using performDelete_category_general(2) [OF t]
    by (simp add: requestDeleteCategory_def)
  show ?thesis by (simp add: c l)
qed

theorem performDelete_category_witness:
  "map cat_id (categories (performDelete
       (requestDeleteCategory (SEED_state 0) ''cat_dev'' ''Development'')))
     = [''cat_design'', ''cat_news''] \<and>
   map link_categoryId (links (performDelete
       (requestDeleteCategory (SEED_state 0) ''cat_dev'' ''Development'')))
     = [''uncategorized'', ''uncategorized'', ''cat_design''] \<and>
   links (performDelete (requestDeleteCategory (SEED_state 0) ''cat_dev'' ''Development'')) ! 1
     = (links (SEED_state 0) ! 1)\<lparr>link_categoryId := ''uncategorized''\<rparr> \<and>
   links (performDelete (requestDeleteCategory (SEED_state 0) ''cat_dev'' ''Development'')) ! 2
     = links (SEED_state 0) ! 2"
  using performDelete_category [of "SEED_state 0" "''cat_dev''" "''Development''"]
  by (simp add: SEED_state_def SEED_links_def SEED_categories_def performDelete_def
        requestDeleteCategory_def uncategorized_def)

section \<open>Removing and inserting at an index\<close>

lemma index_of_less: "\<exists>x\<in>set xs. p x \<Longrightarrow> index_of p xs < length xs"
  unfolding index_of_def by (induction xs) auto

lemma findIndex_index_of: "\<exists>x\<in>set xs. p x \<Longrightarrow> findIndex p xs = int (index_of p xs)"
  by (simp add: findIndex_conv index_of_def)

lemma index_of_nth: "\<exists>x\<in>set xs. p x \<Longrightarrow> p (xs ! index_of p xs)"
  using findIndex_found [of p xs "index_of p xs"] findIndex_index_of [of xs p] by simp

lemma length_remove_at: "i < length xs \<Longrightarrow> length (remove_at i xs) = length xs - 1"
  by (auto simp: remove_at_def)

lemma length_insert_at: "k \<le> length xs \<Longrightarrow> length (insert_at k x xs) = Suc (length xs)"
  by (simp add: insert_at_def)

lemma nth_mem_remove_at:
  assumes "j < length xs" "j \<noteq> i"
  shows "xs ! j \<in> set (remove_at i xs)"
proof (cases "j < i")
  case True
  then have "xs ! j \<in> set (take i xs)"
    using assms by (metis in_set_conv_nth length_take min_less_iff_conj nth_take)
  then show ?thesis by (simp add: remove_at_def)
next
  case False
  with assms have "Suc i \<le> j" by simp
  then have "xs ! j \<in> set (drop (Suc i) xs)"
    using assms(1) by (metis Cons_nth_drop_Suc list.set_intros(1) set_drop_subset_set_drop subsetD)
  then show ?thesis by (simp add: remove_at_def)
qed

lemma remove_at_update: "remove_at i (xs[i := y]) = remove_at i xs"
  by (simp add: remove_at_def)

lemma dropLinks_on_link:
  assumes d: "\<exists>l\<in>set ls. link_id l = did" and t: "\<exists>l\<in>set ls. link_id l = tid"
    and ne: "did \<noteq> tid"
  shows "dropLinks pos did tid LINK ls =
           map_index (\<lambda>l idx. l\<lparr>link_order := int idx\<rparr>) (spec_link_drop pos did tid ls)"
proof -
  define i where "i = index_of (\<lambda>l. link_id l = did) ls"
  define j where "j = index_of (\<lambda>l. link_id l = tid) ls"
  define rest where "rest = remove_at i ls"
  define d' where "d' = (ls ! i)\<lparr>link_categoryId := link_categoryId (ls ! j)\<rparr>"
  have fi: "findIndex (\<lambda>l. link_id l = did) ls = int i"
    using d by (simp add: findIndex_index_of i_def)
  have fj: "findIndex (\<lambda>l. link_id l = tid) ls = int j"
    using t by (simp add: findIndex_index_of j_def)
  have i: "i < length ls" and j: "j < length ls"
    using d t by (simp_all add: i_def j_def index_of_less)
  have idi: "link_id (ls ! i) = did" and idj: "link_id (ls ! j) = tid"
    using index_of_nth [OF d] index_of_nth [OF t] by (simp_all add: i_def j_def)
  have ij: "i \<noteq> j" using idi idj ne by auto
  have rm: "splice_js (int i) (Suc 0) [] (ls[i := d']) = ([d'], rest)"
    using i splice_remove [of i "ls[i := d']"]
    by (simp add: rest_def remove_at_def)
  have t': "\<exists>l\<in>set rest. link_id l = tid"
    using nth_mem_remove_at [OF j, of i] ij idj unfolding rest_def by auto
  define k0 where "k0 = index_of (\<lambda>l. link_id l = tid) rest"
  have fk: "findIndex (\<lambda>l. link_id l = tid) rest = int k0"
    using t' by (simp add: findIndex_index_of k0_def)
  have k0: "k0 < length rest" using t' by (simp add: k0_def index_of_less)
  define k where "k = k0 + (if pos = Some AFTER then 1 else 0)"
  have ins0: "snd (splice_js (int k0) 0 [d'] rest) = insert_at k0 d' rest"
    using splice_insert [of k0 rest d'] k0 by (simp add: insert_at_def)
  have ins1: "snd (splice_js (int k0 + 1) 0 [d'] rest) = insert_at (Suc k0) d' rest"
    using splice_insert [of "Suc k0" rest d'] k0 by (simp add: insert_at_def add.commute)
  have lhs: "dropLinks pos did tid LINK ls =
      map_index (\<lambda>l idx. l\<lparr>link_order := int idx\<rparr>) (insert_at k d' rest)"
    using ij by (simp add: dropLinks_def Let_def fi fj d'_def [symmetric] rm fk ins0 ins1 k_def)
  have rhs: "spec_link_drop pos did tid ls = insert_at k d' rest"
    by (simp add: spec_link_drop_def Let_def i_def [symmetric] j_def [symmetric]
          d'_def [symmetric] rest_def [symmetric] k0_def [symmetric] k_def)
  show ?thesis by (simp add: lhs rhs)
qed

lemma nth_remove_at:
  "n < length xs - 1 \<Longrightarrow> remove_at i xs ! n = (if n < i then xs ! n else xs ! Suc n)"
  by (auto simp: remove_at_def nth_append min_def)

lemma index_of_first:
  assumes "i < length xs" "p (xs ! i)" "\<forall>j < i. \<not> p (xs ! j)"
  shows "index_of p xs = i"
proof -
  have "takeWhile (\<lambda>x. \<not> p x) xs = take i xs"
    using assms by (intro takeWhile_eq_take_P_nth) auto
  then show ?thesis using assms by (simp add: index_of_def)
qed

lemma index_of_remove_at:
  assumes t: "\<exists>x\<in>set xs. q x" and i: "i < length xs" and ni: "\<not> q (xs ! i)"
  shows "index_of q (remove_at i xs) =
           (if i < index_of q xs then index_of q xs - 1 else index_of q xs)"
proof -
  define j where "j = index_of q xs"
  have fj: "findIndex q xs = int j" using t by (simp add: findIndex_index_of j_def)
  from findIndex_found [OF fj]
  have j: "j < length xs" and qj: "q (xs ! j)" and first: "\<forall>m < j. \<not> q (xs ! m)" by auto
  have ij: "i \<noteq> j" using ni qj by auto
  show ?thesis
  proof (cases "i < j")
    case True
    have "index_of q (remove_at i xs) = j - 1"
    proof (rule index_of_first)
      show "j - 1 < length (remove_at i xs)" using True j i by (simp add: length_remove_at)
      have "\<not> j - 1 < i" "Suc (j - 1) = j" "j - 1 < length xs - 1" using True j by auto
      then show "q (remove_at i xs ! (j - 1))" using qj by (simp add: nth_remove_at)
      show "\<forall>m < j - 1. \<not> q (remove_at i xs ! m)"
        using True j first by (auto simp: nth_remove_at)
    qed
    with True show ?thesis by (simp add: j_def)
  next
    case False
    with ij have ji: "j < i" by simp
    have "index_of q (remove_at i xs) = j"
    proof (rule index_of_first)
      show "j < length (remove_at i xs)" using ji i by (simp add: length_remove_at)
      show "q (remove_at i xs ! j)" using ji i qj by (simp add: nth_remove_at)
      show "\<forall>m < j. \<not> q (remove_at i xs ! m)"
        using ji i first by (auto simp: nth_remove_at)
    qed
    with False show ?thesis by (simp add: j_def)
  qed
qed

lemma nth_insert_at:
  assumes "k \<le> length xs" "n \<le> length xs"
  shows "insert_at k x xs ! n = (if n < k then xs ! n else if n = k then x else xs ! (n - 1))"
proof -
  consider "n < k" | "n = k" | "k < n" by linarith
  then show ?thesis
  proof cases
    case 1
    then show ?thesis using assms by (simp add: insert_at_def nth_append)
  next
    case 2
    then show ?thesis using assms by (simp add: insert_at_def nth_append)
  next
    case 3
    then obtain m where m: "n = Suc (k + m)" using less_imp_Suc_add by blast
    then show ?thesis using assms by (simp add: insert_at_def nth_append min_def)
  qed
qed

section \<open>A link dropped on a link\<close>

lemma links_handleDrop_link:
  "draggedItem st = Some d \<Longrightarrow> drag_type d = LINK \<Longrightarrow>
     links (handleDropWithState st targetId ty) =
       dropLinks (dropPosition st) (drag_id d) targetId ty (links st) \<and>
     categories (handleDropWithState st targetId ty) = categories st"
  by (simp add: handleDropWithState_def)

lemma length_spec_link_drop:
  assumes d: "\<exists>l\<in>set ls. link_id l = did" and t: "\<exists>l\<in>set ls. link_id l = tid"
    and ne: "did \<noteq> tid"
  shows "length (spec_link_drop pos did tid ls) = length ls"
proof -
  let ?i = "index_of (\<lambda>l. link_id l = did) ls"
  have i: "?i < length ls" using d by (simp add: index_of_less)
  have nq: "\<not> link_id (ls ! ?i) = tid" using index_of_nth [OF d] ne by simp
  have "\<exists>l\<in>set (remove_at ?i ls). link_id l = tid"
  proof -
    let ?j = "index_of (\<lambda>l. link_id l = tid) ls"
    have "?j < length ls" "link_id (ls ! ?j) = tid"
      using t index_of_less [OF t] index_of_nth [OF t] by simp_all
    moreover from this nq have "?j \<noteq> ?i" by auto
    ultimately show ?thesis using nth_mem_remove_at [of ?j ls ?i] by auto
  qed
  then have "index_of (\<lambda>l. link_id l = tid) (remove_at ?i ls) < length (remove_at ?i ls)"
    by (simp add: index_of_less)
  then show ?thesis using i
    by (simp add: spec_link_drop_def Let_def length_insert_at length_remove_at)
qed

text \<open>
  Claim C1. A link is being dragged (the drag state names a link of the list) and is
  dropped on another link of the list. Then the new link list is the list the
  specification describes (\<open>spec_link_drop\<close>: the dragged link with the target's
  \<^verbatim>\<open>categoryId\<close>, removed and put in at the target's index after the removal, plus one for
  \<^verbatim>\<open>AFTER\<close>) with every \<^verbatim>\<open>order\<close> set to the position in the whole list. With \<open>k\<close> the
  target's index after the removal, the dragged link is at \<open>k\<close> and the target at \<open>k + 1\<close>
  unless the drop position is \<^verbatim>\<open>AFTER\<close>, where the target is at \<open>k\<close> and the dragged link
  at \<open>k + 1\<close>. The categories do not change.
\<close>

theorem link_dropped_on_link:
  assumes drag: "draggedItem st = Some d" "drag_type d = LINK"
    and d: "\<exists>l\<in>set (links st). link_id l = drag_id d"
    and t: "\<exists>l\<in>set (links st). link_id l = targetId"
    and ne: "drag_id d \<noteq> targetId"
  defines "result \<equiv> links (handleDropWithState st targetId LINK)"
    and "moved \<equiv> spec_link_drop (dropPosition st) (drag_id d) targetId (links st)"
    and "i \<equiv> index_of (\<lambda>l. link_id l = drag_id d) (links st)"
    and "j \<equiv> index_of (\<lambda>l. link_id l = targetId) (links st)"
  defines "k \<equiv> (if i < j then j - 1 else j)"
    and "dragged \<equiv> (links st ! i)\<lparr>link_categoryId := link_categoryId (links st ! j)\<rparr>"
  shows "length result = length (links st) \<and>
         length moved = length (links st) \<and>
         (\<forall>n < length result. result ! n = (moved ! n)\<lparr>link_order := int n\<rparr>) \<and>
         k = index_of (\<lambda>l. link_id l = targetId) (remove_at i (links st)) \<and>
         Suc k < length result \<and>
         (dropPosition st \<noteq> Some AFTER \<longrightarrow>
            result ! k = dragged\<lparr>link_order := int k\<rparr> \<and>
            result ! Suc k = (links st ! j)\<lparr>link_order := int (Suc k)\<rparr>) \<and>
         (dropPosition st = Some AFTER \<longrightarrow>
            result ! k = (links st ! j)\<lparr>link_order := int k\<rparr> \<and>
            result ! Suc k = dragged\<lparr>link_order := int (Suc k)\<rparr>) \<and>
         categories (handleDropWithState st targetId LINK) = categories st"
proof -
  let ?ls = "links st"
  let ?rest = "remove_at i ?ls"
  have res: "result = map_index (\<lambda>l idx. l\<lparr>link_order := int idx\<rparr>) moved"
    unfolding result_def moved_def
    using links_handleDrop_link [OF drag] dropLinks_on_link [OF d t ne] by simp
  have len: "length moved = length ?ls"
    unfolding moved_def by (rule length_spec_link_drop [OF d t ne])
  have i: "i < length ?ls" and j: "j < length ?ls"
    using d t by (simp_all add: i_def j_def index_of_less)
  have idi: "link_id (?ls ! i) = drag_id d" and idj: "link_id (?ls ! j) = targetId"
    using index_of_nth [OF d] index_of_nth [OF t] by (simp_all add: i_def j_def)
  have ij: "i \<noteq> j" using idi idj ne by auto
  have nq: "\<not> link_id (?ls ! i) = targetId" using idi ne by simp
  have k: "k = index_of (\<lambda>l. link_id l = targetId) ?rest"
    using index_of_remove_at [of ?ls "\<lambda>l. link_id l = targetId" i, OF t i nq]
    by (simp add: k_def j_def)
  have klt: "k < length ?rest"
    using i j ij by (auto simp: k_def length_remove_at)
  have lrest: "length ?rest = length ?ls - 1" using i by (simp add: length_remove_at)
  have restk: "?rest ! k = ?ls ! j"
    using klt lrest ij by (auto simp: k_def nth_remove_at)
  have mv: "moved = insert_at (k + (if dropPosition st = Some AFTER then 1 else 0)) dragged ?rest"
    by (simp add: moved_def spec_link_drop_def Let_def i_def [symmetric] j_def [symmetric]
          dragged_def k)
  have before: "dropPosition st \<noteq> Some AFTER \<Longrightarrow> moved ! k = dragged \<and> moved ! Suc k = ?ls ! j"
    using klt restk by (simp add: mv nth_insert_at)
  have after: "dropPosition st = Some AFTER \<Longrightarrow> moved ! k = ?ls ! j \<and> moved ! Suc k = dragged"
    using klt restk by (simp add: mv nth_insert_at)
  have sk: "Suc k < length moved" using klt lrest len i by simp
  then have kl: "k < length moved" by simp
  show ?thesis
    using len sk kl before after k links_handleDrop_link [OF drag, of targetId LINK]
    by (simp add: res)
qed

theorem link_dropped_on_link_witness:
  "draggedItem (handleDragOver (handleDragStart demo_state
       \<lparr>drag_type = LINK, drag_id = ''c'', drag_categoryId = None\<rparr>) ''b'' True)
     = Some \<lparr>drag_type = LINK, drag_id = ''c'', drag_categoryId = None\<rparr> \<and>
   dropPosition (handleDragOver (handleDragStart demo_state
       \<lparr>drag_type = LINK, drag_id = ''c'', drag_categoryId = None\<rparr>) ''b'' True)
     = Some BEFORE \<and>
   links (handleDropWithState (handleDragOver (handleDragStart demo_state
       \<lparr>drag_type = LINK, drag_id = ''c'', drag_categoryId = None\<rparr>) ''b'' True) ''b'' LINK)
     = [demo_link ''c'' ''Y'' 0, demo_link ''b'' ''Y'' 1, demo_link ''a'' ''X'' 2]"
proof -
  let ?d = "\<lparr>drag_type = LINK, drag_id = ''c'', drag_categoryId = None\<rparr>"
  let ?st = "handleDragOver (handleDragStart demo_state ?d) ''b'' True"
  have ls: "links ?st = [demo_link ''b'' ''Y'' 0, demo_link ''a'' ''X'' 1, demo_link ''c'' ''X'' 2]"
    by (simp add: handleDragOver_def handleDragStart_def demo_state_def)
  have h1: "draggedItem ?st = Some ?d"
    by (simp add: handleDragOver_def handleDragStart_def)
  have h2: "drag_type ?d = LINK" by simp
  have h3: "\<exists>l\<in>set (links ?st). link_id l = drag_id ?d" by (simp add: ls demo_link_def)
  have h4: "\<exists>l\<in>set (links ?st). link_id l = ''b''" by (simp add: ls demo_link_def)
  have h5: "drag_id ?d \<noteq> ''b''" by simp
  have pos: "dropPosition ?st = Some BEFORE"
    by (simp add: handleDragOver_def handleDragStart_def)
  have i: "index_of (\<lambda>l. link_id l = ''c'') (links ?st) = 2"
    by (simp add: ls demo_link_def index_of_def)
  have j: "index_of (\<lambda>l. link_id l = ''b'') (links ?st) = 0"
    by (simp add: ls demo_link_def index_of_def)
  note inst = link_dropped_on_link [OF h1 h2 h3 h4 h5]
  let ?r = "links (handleDropWithState ?st ''b'' LINK)"
  from inst have len: "length ?r = 3" by (simp add: ls)
  from inst have r0: "?r ! 0 = demo_link ''c'' ''Y'' 0"
    by (simp add: pos i j) (simp add: ls demo_link_def)
  from inst have r1: "?r ! 1 = demo_link ''b'' ''Y'' 1"
    by (simp add: pos i j) (simp add: ls demo_link_def)
  from inst [THEN conjunct2, THEN conjunct2, THEN conjunct1, rule_format, of 2] len
  have "?r ! 2 = (spec_link_drop (Some BEFORE) ''c'' ''b'' (links ?st) ! 2)
                              \<lparr>link_order := 2\<rparr>"
    by (simp add: pos)
  then have r2: "?r ! 2 = demo_link ''a'' ''X'' 2"
    by (simp add: ls spec_link_drop_def index_of_def remove_at_def insert_at_def demo_link_def)
  from len obtain x y z where xyz: "?r = [x, y, z]"
    by (auto simp: length_Suc_conv numeral_3_eq_3)
  from r0 r1 r2 have "?r = [demo_link ''c'' ''Y'' 0, demo_link ''b'' ''Y'' 1, demo_link ''a'' ''X'' 2]"
    unfolding xyz by simp
  with h1 pos show ?thesis by simp
qed

section \<open>A category dropped on a category\<close>

lemma insert_at_remove_at_same: "i < length xs \<Longrightarrow> insert_at i (xs ! i) (remove_at i xs) = xs"
  by (simp add: insert_at_def remove_at_def min_def id_take_nth_drop [symmetric])

lemma dropCategories_move:
  assumes d: "\<exists>c\<in>set cs. cat_id c = did" and t: "\<exists>c\<in>set cs. cat_id c = tid"
  shows "dropCategories did tid cs =
           map_index (\<lambda>c idx. c\<lparr>cat_order := int idx\<rparr>)
             (insert_at (index_of (\<lambda>c. cat_id c = tid) cs)
                (cs ! index_of (\<lambda>c. cat_id c = did) cs)
                (remove_at (index_of (\<lambda>c. cat_id c = did) cs) cs))"
proof -
  define i where "i = index_of (\<lambda>c. cat_id c = did) cs"
  define j where "j = index_of (\<lambda>c. cat_id c = tid) cs"
  have fi: "findIndex (\<lambda>c. cat_id c = did) cs = int i"
    using d by (simp add: findIndex_index_of i_def)
  have fj: "findIndex (\<lambda>c. cat_id c = tid) cs = int j"
    using t by (simp add: findIndex_index_of j_def)
  have i: "i < length cs" and j: "j < length cs"
    using d t by (simp_all add: i_def j_def index_of_less)
  have rm: "splice_js (int i) (Suc 0) [] cs = ([cs ! i], remove_at i cs)"
    using splice_remove [OF i] by (simp add: remove_at_def)
  have "j \<le> length (remove_at i cs)" using i j by (simp add: length_remove_at)
  then have ins: "snd (splice_js (int j) 0 [cs ! i] (remove_at i cs))
                    = insert_at j (cs ! i) (remove_at i cs)"
    using splice_insert [of j "remove_at i cs" "cs ! i"] by (simp add: insert_at_def)
  show ?thesis
    by (simp add: dropCategories_def Let_def fi fj rm ins
          i_def [symmetric] j_def [symmetric])
qed

lemma categories_handleDrop_category:
  "draggedItem st = Some d \<Longrightarrow> drag_type d = CATEGORY \<Longrightarrow>
     categories (handleDropWithState st targetId CATEGORY) =
       dropCategories (drag_id d) targetId (categories st) \<and>
     links (handleDropWithState st targetId CATEGORY) = links st"
  by (simp add: handleDropWithState_def)

lemma cat_order_map_index:
  "map cat_order (map_index (\<lambda>c idx. c\<lparr>cat_order := int idx\<rparr>) xs) = map int [0..<length xs]"
  by (rule nth_equalityI) simp_all

lemma link_order_map_index:
  "map link_order (map_index (\<lambda>l idx. l\<lparr>link_order := int idx\<rparr>) xs) = map int [0..<length xs]"
  by (rule nth_equalityI) simp_all

lemma remove_at_insert_at: "k \<le> length xs \<Longrightarrow> remove_at k (insert_at k x xs) = xs"
  by (simp add: remove_at_def insert_at_def min_def)

text \<open>
  Claim C2, as the code has it. A category is being dragged and is dropped on another
  category of the list. The dragged category is taken out and put in at the index the
  target had before the removal: it ends at the target's former index \<open>j\<close>, directly
  after the target when it came from before the target, directly before the target when
  it came from after it. Every \<^verbatim>\<open>order\<close> is then the position in the list. It is a move:
  the other categories keep their sequence. The links do not change.
\<close>

theorem category_dropped_on_category:
  assumes drag: "draggedItem st = Some d" "drag_type d = CATEGORY"
    and d: "\<exists>c\<in>set (categories st). cat_id c = drag_id d"
    and t: "\<exists>c\<in>set (categories st). cat_id c = targetId"
    and ne: "drag_id d \<noteq> targetId"
  defines "result \<equiv> categories (handleDropWithState st targetId CATEGORY)"
    and "i \<equiv> index_of (\<lambda>c. cat_id c = drag_id d) (categories st)"
    and "j \<equiv> index_of (\<lambda>c. cat_id c = targetId) (categories st)"
  defines "moved \<equiv> insert_at j (categories st ! i) (remove_at i (categories st))"
  shows "length result = length (categories st) \<and>
         length moved = length (categories st) \<and>
         (\<forall>n < length result. result ! n = (moved ! n)\<lparr>cat_order := int n\<rparr>) \<and>
         categories_renumbered result \<and>
         result ! j = (categories st ! i)\<lparr>cat_order := int j\<rparr> \<and>
         (i < j \<longrightarrow> result ! (j - 1) = (categories st ! j)\<lparr>cat_order := int (j - 1)\<rparr>) \<and>
         (j < i \<longrightarrow> result ! Suc j = (categories st ! j)\<lparr>cat_order := int (Suc j)\<rparr>) \<and>
         remove_at j moved = remove_at i (categories st) \<and>
         links (handleDropWithState st targetId CATEGORY) = links st"
proof -
  let ?cs = "categories st"
  let ?rest = "remove_at i ?cs"
  have res: "result = map_index (\<lambda>c idx. c\<lparr>cat_order := int idx\<rparr>) moved"
    unfolding result_def moved_def i_def j_def
    using categories_handleDrop_category [OF drag] dropCategories_move [OF d t] by simp
  have i: "i < length ?cs" and j: "j < length ?cs"
    using d t by (simp_all add: i_def j_def index_of_less)
  have idi: "cat_id (?cs ! i) = drag_id d" and idj: "cat_id (?cs ! j) = targetId"
    using index_of_nth [OF d] index_of_nth [OF t] by (simp_all add: i_def j_def)
  have ij: "i \<noteq> j" using idi idj ne by auto
  have lrest: "length ?rest = length ?cs - 1" using i by (simp add: length_remove_at)
  have jle: "j \<le> length ?rest" using j lrest by simp
  have len: "length moved = length ?cs"
    using jle lrest i by (simp add: moved_def length_insert_at)
  have mj: "moved ! j = ?cs ! i" using jle by (simp add: moved_def nth_insert_at)
  have before: "moved ! (j - 1) = ?cs ! j" if "i < j"
  proof -
    have "moved ! (j - 1) = ?rest ! (j - 1)"
      using that jle by (simp add: moved_def nth_insert_at)
    also have "\<dots> = ?cs ! j" using that j by (simp add: nth_remove_at)
    finally show ?thesis .
  qed
  have after: "moved ! Suc j = ?cs ! j" if "j < i"
  proof -
    have "Suc j \<le> length ?rest" using that i lrest by simp
    then have "moved ! Suc j = ?rest ! j"
      using jle by (simp add: moved_def nth_insert_at)
    also have "\<dots> = ?cs ! j" using that i by (simp add: nth_remove_at)
    finally show ?thesis .
  qed
  have ren: "categories_renumbered result"
    by (simp add: categories_renumbered_def res cat_order_map_index)
  have keep: "remove_at j moved = ?rest"
    using jle by (simp add: moved_def remove_at_insert_at)
  have c1: "length result = length ?cs" by (simp add: res len)
  have c3: "\<forall>n < length result. result ! n = (moved ! n)\<lparr>cat_order := int n\<rparr>"
    by (simp add: res)
  have c5: "result ! j = (?cs ! i)\<lparr>cat_order := int j\<rparr>"
    using j len mj by (simp add: res)
  have c6: "i < j \<longrightarrow> result ! (j - 1) = (?cs ! j)\<lparr>cat_order := int (j - 1)\<rparr>"
  proof
    assume a: "i < j"
    then have "j - 1 < length moved" using j len by simp
    then show "result ! (j - 1) = (?cs ! j)\<lparr>cat_order := int (j - 1)\<rparr>"
      using before [OF a] by (simp add: res)
  qed
  have c7: "j < i \<longrightarrow> result ! Suc j = (?cs ! j)\<lparr>cat_order := int (Suc j)\<rparr>"
  proof
    assume a: "j < i"
    then have "Suc j < length moved" using i len by simp
    then show "result ! Suc j = (?cs ! j)\<lparr>cat_order := int (Suc j)\<rparr>"
      using after [OF a] by (simp add: res)
  qed
  have c9: "links (handleDropWithState st targetId CATEGORY) = links st"
    using categories_handleDrop_category [OF drag, of targetId] by simp
  from c1 len c3 ren c5 c6 c7 keep c9 show ?thesis by blast
qed

theorem category_dropped_on_category_witness:
  "draggedItem (handleDragStart (SEED_state 0)
       \<lparr>drag_type = CATEGORY, drag_id = ''cat_dev'', drag_categoryId = None\<rparr>)
     = Some \<lparr>drag_type = CATEGORY, drag_id = ''cat_dev'', drag_categoryId = None\<rparr> \<and>
   categories (handleDropWithState (handleDragStart (SEED_state 0)
       \<lparr>drag_type = CATEGORY, drag_id = ''cat_dev'', drag_categoryId = None\<rparr>)
       ''cat_news'' CATEGORY)
     = [\<lparr>cat_id = ''cat_design'', cat_name = ''Design'', cat_order = 0\<rparr>,
        \<lparr>cat_id = ''cat_news'', cat_name = ''Reading'', cat_order = 1\<rparr>,
        \<lparr>cat_id = ''cat_dev'', cat_name = ''Development'', cat_order = 2\<rparr>]"
proof -
  let ?d = "\<lparr>drag_type = CATEGORY, drag_id = ''cat_dev'', drag_categoryId = None\<rparr>"
  let ?st = "handleDragStart (SEED_state 0) ?d"
  have cs: "categories ?st = SEED_categories"
    by (simp add: handleDragStart_def SEED_state_def)
  have h1: "draggedItem ?st = Some ?d" by (simp add: handleDragStart_def)
  have h2: "drag_type ?d = CATEGORY" by simp
  have h3: "\<exists>c\<in>set (categories ?st). cat_id c = drag_id ?d"
    by (simp add: cs SEED_categories_def)
  have h4: "\<exists>c\<in>set (categories ?st). cat_id c = ''cat_news''"
    by (simp add: cs SEED_categories_def)
  have h5: "drag_id ?d \<noteq> ''cat_news''" by simp
  have i: "index_of (\<lambda>c. cat_id c = ''cat_dev'') SEED_categories = 0"
    by (simp add: SEED_categories_def index_of_def)
  have j: "index_of (\<lambda>c. cat_id c = ''cat_news'') SEED_categories = 2"
    by (simp add: SEED_categories_def index_of_def)
  have mv: "insert_at 2 (SEED_categories ! 0) (remove_at 0 SEED_categories)
              = [SEED_categories ! 1, SEED_categories ! 2, SEED_categories ! 0]"
    by (simp add: SEED_categories_def insert_at_def remove_at_def)
  note inst = category_dropped_on_category [OF h1 h2 h3 h4 h5, unfolded cs]
  let ?r = "categories (handleDropWithState ?st ''cat_news'' CATEGORY)"
  from inst have len: "length ?r = 3" by (simp add: SEED_categories_def)
  from inst [THEN conjunct2, THEN conjunct2, THEN conjunct1] len
  have "?r ! 0 = (SEED_categories ! 1)\<lparr>cat_order := 0\<rparr>"
       "?r ! 1 = (SEED_categories ! 2)\<lparr>cat_order := 1\<rparr>"
       "?r ! 2 = (SEED_categories ! 0)\<lparr>cat_order := 2\<rparr>"
    by (simp_all add: i j mv)
  moreover from len obtain x y z where xyz: "?r = [x, y, z]"
    by (auto simp: length_Suc_conv numeral_3_eq_3)
  ultimately have "?r = [(SEED_categories ! 1)\<lparr>cat_order := 0\<rparr>,
       (SEED_categories ! 2)\<lparr>cat_order := 1\<rparr>, (SEED_categories ! 0)\<lparr>cat_order := 2\<rparr>]"
    unfolding xyz by simp
  with h1 show ?thesis by (simp add: SEED_categories_def)
qed

theorem category_drop_post_removal_counterexample:
  "map cat_id (categories (handleDropWithState (handleDragStart (SEED_state 0)
       \<lparr>drag_type = CATEGORY, drag_id = ''cat_dev'', drag_categoryId = None\<rparr>)
       ''cat_news'' CATEGORY))
     = [''cat_design'', ''cat_news'', ''cat_dev''] \<and>
   map cat_id (spec_category_drop ''cat_dev'' ''cat_news'' (categories (SEED_state 0)))
     = [''cat_design'', ''cat_dev'', ''cat_news''] \<and>
   categories (handleDropWithState (handleDragStart (SEED_state 0)
       \<lparr>drag_type = CATEGORY, drag_id = ''cat_dev'', drag_categoryId = None\<rparr>)
       ''cat_news'' CATEGORY)
     \<noteq> map_index (\<lambda>c idx. c\<lparr>cat_order := int idx\<rparr>)
         (spec_category_drop ''cat_dev'' ''cat_news'' (categories (SEED_state 0)))"
proof -
  let ?d = "\<lparr>drag_type = CATEGORY, drag_id = ''cat_dev'', drag_categoryId = None\<rparr>"
  let ?r = "categories (handleDropWithState (handleDragStart (SEED_state 0) ?d)
              ''cat_news'' CATEGORY)"
  let ?s = "spec_category_drop ''cat_dev'' ''cat_news'' (categories (SEED_state 0))"
  have r: "?r = dropCategories ''cat_dev'' ''cat_news'' SEED_categories"
    by (simp add: handleDropWithState_def handleDragStart_def SEED_state_def)
  have a: "map cat_id ?r = [''cat_design'', ''cat_news'', ''cat_dev'']"
    unfolding r
    by (simp add: dropCategories_def SEED_categories_def Let_def splice_js_def map_index_def
          upt_rec [of 0] upt_rec [of 1] upt_rec [of 2])
  have b: "map cat_id ?s = [''cat_design'', ''cat_dev'', ''cat_news'']"
    by (simp add: spec_category_drop_def SEED_state_def SEED_categories_def Let_def
          index_of_def remove_at_def insert_at_def)
  have "map cat_id (map_index (\<lambda>c idx. c\<lparr>cat_order := int idx\<rparr>) ?s) = map cat_id ?s"
    by (rule nth_equalityI) simp_all
  with a b have "map cat_id ?r \<noteq> map cat_id (map_index (\<lambda>c idx. c\<lparr>cat_order := int idx\<rparr>) ?s)"
    by simp
  then have "?r \<noteq> map_index (\<lambda>c idx. c\<lparr>cat_order := int idx\<rparr>) ?s" by metis
  with a b show ?thesis by blast
qed

section \<open>An item dropped on itself\<close>

lemma link_dropped_on_itself:
  assumes "draggedItem st = Some d" "drag_type d = LINK" "drag_id d = targetId"
  shows "links (handleDropWithState st targetId LINK) = links st \<and>
         categories (handleDropWithState st targetId LINK) = categories st"
  using assms by (simp add: handleDropWithState_def dropLinks_def Let_def)

lemma category_dropped_on_itself:
  assumes "draggedItem st = Some d" "drag_type d = CATEGORY" "drag_id d = targetId"
    and "\<exists>c\<in>set (categories st). cat_id c = targetId"
  shows "categories (handleDropWithState st targetId CATEGORY) =
           map_index (\<lambda>c idx. c\<lparr>cat_order := int idx\<rparr>) (categories st)"
proof -
  have "index_of (\<lambda>c. cat_id c = targetId) (categories st) < length (categories st)"
    using assms(4) by (simp add: index_of_less)
  then show ?thesis
    using categories_handleDrop_category [OF assms(1,2), of targetId]
      dropCategories_move [OF assms(4) assms(4)] assms(3)
    by (simp add: insert_at_remove_at_same)
qed

lemma map_index_renumbered_id:
  "categories_renumbered cs \<Longrightarrow> map_index (\<lambda>c idx. c\<lparr>cat_order := int idx\<rparr>) cs = cs"
proof (rule nth_equalityI)
  show "length (map_index (\<lambda>c idx. c\<lparr>cat_order := int idx\<rparr>) cs) = length cs" by simp
next
  fix n
  assume r: "categories_renumbered cs"
    and "n < length (map_index (\<lambda>c idx. c\<lparr>cat_order := int idx\<rparr>) cs)"
  then have n: "n < length cs" by simp
  from r have "map cat_order cs ! n = map int [0..<length cs] ! n"
    by (simp add: categories_renumbered_def)
  with n have "cat_order (cs ! n) = int n" by simp
  with n show "map_index (\<lambda>c idx. c\<lparr>cat_order := int idx\<rparr>) cs ! n = cs ! n" by simp
qed

lemma dropCategories_absent:
  "\<not> (\<exists>c\<in>set cs. cat_id c = t) \<Longrightarrow> dropCategories d t cs = cs"
  by (simp add: dropCategories_def Let_def findIndex_none)

text \<open>
  Claim C4, as the code has it. A link dropped on itself changes neither array. A category
  dropped on itself leaves the links alone and keeps the sequence of the categories and
  everything in them but \<^verbatim>\<open>order\<close>, which becomes the position; so the categories array is
  the previous one when the orders were the positions already.
\<close>

theorem item_dropped_on_itself:
  assumes "draggedItem st = Some d" and "drag_id d = targetId"
  shows "(drag_type d = LINK \<longrightarrow>
            links (handleDropWithState st targetId LINK) = links st \<and>
            categories (handleDropWithState st targetId LINK) = categories st) \<and>
         (drag_type d = CATEGORY \<longrightarrow>
            links (handleDropWithState st targetId CATEGORY) = links st \<and>
            categories (handleDropWithState st targetId CATEGORY) =
              (if \<exists>c\<in>set (categories st). cat_id c = targetId
               then map_index (\<lambda>c idx. c\<lparr>cat_order := int idx\<rparr>) (categories st)
               else categories st) \<and>
            (categories_renumbered (categories st) \<longrightarrow>
               categories (handleDropWithState st targetId CATEGORY) = categories st))"
proof -
  have l: "links (handleDropWithState st targetId LINK) = links st \<and>
           categories (handleDropWithState st targetId LINK) = categories st"
    if "drag_type d = LINK"
    by (rule link_dropped_on_itself [OF assms(1) that assms(2)])
  have c: "links (handleDropWithState st targetId CATEGORY) = links st \<and>
            categories (handleDropWithState st targetId CATEGORY) =
              (if \<exists>c\<in>set (categories st). cat_id c = targetId
               then map_index (\<lambda>c idx. c\<lparr>cat_order := int idx\<rparr>) (categories st)
               else categories st) \<and>
            (categories_renumbered (categories st) \<longrightarrow>
               categories (handleDropWithState st targetId CATEGORY) = categories st)"
    if ty: "drag_type d = CATEGORY"
  proof (cases "\<exists>c\<in>set (categories st). cat_id c = targetId")
    case True
    from category_dropped_on_itself [OF assms(1) ty assms(2) True]
    show ?thesis
      using True categories_handleDrop_category [OF assms(1) ty, of targetId]
      by (simp add: map_index_renumbered_id)
  next
    case False
    then show ?thesis
      using categories_handleDrop_category [OF assms(1) ty, of targetId]
      by (simp add: dropCategories_absent)
  qed
  from l c show ?thesis by blast
qed

theorem item_dropped_on_itself_witness:
  "links (handleDropWithState
       (handleDragStart demo_state \<lparr>drag_type = LINK, drag_id = ''a'', drag_categoryId = None\<rparr>)
       ''a'' LINK) = links demo_state \<and>
   categories (handleDropWithState
       (handleDragStart demo_state \<lparr>drag_type = LINK, drag_id = ''a'', drag_categoryId = None\<rparr>)
       ''a'' LINK) = categories demo_state \<and>
   categories_renumbered (categories demo_state) \<and>
   categories (handleDropWithState
       (handleDragStart demo_state \<lparr>drag_type = CATEGORY, drag_id = ''X'', drag_categoryId = None\<rparr>)
       ''X'' CATEGORY) = categories demo_state"
proof -
  let ?dl = "\<lparr>drag_type = LINK, drag_id = ''a'', drag_categoryId = None\<rparr>"
  let ?dc = "\<lparr>drag_type = CATEGORY, drag_id = ''X'', drag_categoryId = None\<rparr>"
  have hl: "draggedItem (handleDragStart demo_state ?dl) = Some ?dl"
    and hc: "draggedItem (handleDragStart demo_state ?dc) = Some ?dc"
    by (simp_all add: handleDragStart_def)
  have same: "links (handleDragStart demo_state ?dl) = links demo_state"
    "categories (handleDragStart demo_state ?dl) = categories demo_state"
    "categories (handleDragStart demo_state ?dc) = categories demo_state"
    by (simp_all add: handleDragStart_def)
  have ren: "categories_renumbered (categories demo_state)"
    by (simp add: categories_renumbered_def demo_state_def upt_rec [of 0] upt_rec [of 1])
  have ida: "drag_id ?dl = ''a''" and idc: "drag_id ?dc = ''X''" by simp_all
  have tl: "drag_type ?dl = LINK" and tc: "drag_type ?dc = CATEGORY" by simp_all
  from item_dropped_on_itself [OF hl ida] tl
  have a: "links (handleDropWithState (handleDragStart demo_state ?dl) ''a'' LINK)
             = links (handleDragStart demo_state ?dl)"
    and b: "categories (handleDropWithState (handleDragStart demo_state ?dl) ''a'' LINK)
             = categories (handleDragStart demo_state ?dl)"
    by blast+
  have ren': "categories_renumbered (categories (handleDragStart demo_state ?dc))"
    using ren by (simp only: same)
  from item_dropped_on_itself [OF hc idc] tc ren'
  have c: "categories (handleDropWithState (handleDragStart demo_state ?dc) ''X'' CATEGORY)
             = categories (handleDragStart demo_state ?dc)"
    by blast
  from a b c ren show ?thesis by (simp only: same simp_thms)
qed

text \<open>
  A state the user interface reaches: the seed data, the category \<^verbatim>\<open>cat_dev\<close> deleted,
  then \<^verbatim>\<open>cat_design\<close> dragged and dropped on itself. The drop rewrites the \<^verbatim>\<open>order\<close>
  fields 1, 2 of the two categories to 0, 1: the categories array is not the previous one.
\<close>

theorem category_self_drop_counterexample:
  "map cat_order (categories (handleDragStart
       (performDelete (requestDeleteCategory (SEED_state 0) ''cat_dev'' ''Development''))
       \<lparr>drag_type = CATEGORY, drag_id = ''cat_design'', drag_categoryId = None\<rparr>)) = [1, 2] \<and>
   map cat_order (categories (handleDropWithState (handleDragStart
       (performDelete (requestDeleteCategory (SEED_state 0) ''cat_dev'' ''Development''))
       \<lparr>drag_type = CATEGORY, drag_id = ''cat_design'', drag_categoryId = None\<rparr>)
       ''cat_design'' CATEGORY)) = [0, 1] \<and>
   categories (handleDropWithState (handleDragStart
       (performDelete (requestDeleteCategory (SEED_state 0) ''cat_dev'' ''Development''))
       \<lparr>drag_type = CATEGORY, drag_id = ''cat_design'', drag_categoryId = None\<rparr>)
       ''cat_design'' CATEGORY)
     \<noteq> categories (handleDragStart
       (performDelete (requestDeleteCategory (SEED_state 0) ''cat_dev'' ''Development''))
       \<lparr>drag_type = CATEGORY, drag_id = ''cat_design'', drag_categoryId = None\<rparr>)"
proof -
  let ?d = "\<lparr>drag_type = CATEGORY, drag_id = ''cat_design'', drag_categoryId = None\<rparr>"
  let ?st = "handleDragStart
       (performDelete (requestDeleteCategory (SEED_state 0) ''cat_dev'' ''Development'')) ?d"
  have cs: "categories ?st =
      [\<lparr>cat_id = ''cat_design'', cat_name = ''Design'', cat_order = 1\<rparr>,
       \<lparr>cat_id = ''cat_news'', cat_name = ''Reading'', cat_order = 2\<rparr>]"
    by (simp add: handleDragStart_def performDelete_def requestDeleteCategory_def
          SEED_state_def SEED_categories_def)
  have dr: "draggedItem ?st = Some ?d" by (simp add: handleDragStart_def)
  have "categories (handleDropWithState ?st ''cat_design'' CATEGORY) =
          map_index (\<lambda>c idx. c\<lparr>cat_order := int idx\<rparr>) (categories ?st)"
    by (rule category_dropped_on_itself [OF dr]) (simp_all add: cs)
  then have r: "map cat_order (categories (handleDropWithState ?st ''cat_design'' CATEGORY))
                  = [0, 1]"
    by (simp add: cat_order_map_index cs upt_rec [of 0] upt_rec [of 1])
  have o: "map cat_order (categories ?st) = [1, 2]" by (simp add: cs)
  from r o have "categories (handleDropWithState ?st ''cat_design'' CATEGORY) \<noteq> categories ?st"
    by (metis list.inject zero_neq_one)
  with r o show ?thesis by blast
qed

section \<open>Sequences of link reorderings\<close>

lemma links_linkOverLink:
  "links (linkOverLink (d, t, left) st) =
     dropLinks (Some (if left then BEFORE else AFTER)) d t LINK (links st)"
  by (simp add: handleDropWithState_def handleDragOver_def handleDragStart_def)

lemma dropLinks_absent:
  "\<not> ((\<exists>l\<in>set ls. link_id l = d) \<and> (\<exists>l\<in>set ls. link_id l = t) \<and> d \<noteq> t) \<Longrightarrow>
     dropLinks pos d t LINK ls = ls"
  by (auto simp: dropLinks_def Let_def findIndex_none)

lemma dropLinks_renumbered:
  assumes "\<exists>l\<in>set ls. link_id l = d" "\<exists>l\<in>set ls. link_id l = t" "d \<noteq> t"
  shows "links_renumbered (dropLinks pos d t LINK ls)"
  by (simp add: dropLinks_on_link [OF assms] links_renumbered_def link_order_map_index)

lemma link_id_map_index:
  "map link_id (map_index (\<lambda>l idx. l\<lparr>link_order := int idx\<rparr>) xs) = map link_id xs"
  by (rule nth_equalityI) simp_all

lemma mset_remove_at: "i < length xs \<Longrightarrow> mset (remove_at i xs) + {#xs ! i#} = mset xs"
  by (simp add: remove_at_def flip: Cons_nth_drop_Suc mset_append)
     (metis append_take_drop_id mset_append union_mset_add_mset_right mset.simps(2)  Cons_nth_drop_Suc)

lemma set_remove_at: "i < length xs \<Longrightarrow> insert (xs ! i) (set (remove_at i xs)) = set xs"
  using mset_remove_at [of i xs] by (metis set_mset_add_mset_insert set_mset_mset union_mset_add_mset_right add.right_neutral)

lemma set_insert_at: "set (insert_at k x xs) = insert x (set xs)"
  by (simp add: insert_at_def) (metis append_take_drop_id set_append Un_insert_right list.simps(15) set_append)

lemma link_ids_dropLinks:
  "link_id ` set (dropLinks pos d t LINK ls) = link_id ` set ls"
proof (cases "(\<exists>l\<in>set ls. link_id l = d) \<and> (\<exists>l\<in>set ls. link_id l = t) \<and> d \<noteq> t")
  case False
  then show ?thesis by (simp add: dropLinks_absent)
next
  case True
  then have d: "\<exists>l\<in>set ls. link_id l = d" and t: "\<exists>l\<in>set ls. link_id l = t" and ne: "d \<noteq> t"
    by auto
  let ?i = "index_of (\<lambda>l. link_id l = d) ls"
  have i: "?i < length ls" using d by (simp add: index_of_less)
  have "link_id ` set (dropLinks pos d t LINK ls)
          = set (map link_id (map_index (\<lambda>l idx. l\<lparr>link_order := int idx\<rparr>)
                   (spec_link_drop pos d t ls)))"
    by (simp add: dropLinks_on_link [OF d t ne])
  also have "\<dots> = link_id ` set (spec_link_drop pos d t ls)"
    by (simp add: link_id_map_index)
  also have "\<dots> = insert (link_id (ls ! ?i)) (link_id ` set (remove_at ?i ls))"
    by (simp add: spec_link_drop_def Let_def set_insert_at)
  also have "\<dots> = link_id ` insert (ls ! ?i) (set (remove_at ?i ls))" by simp
  also have "\<dots> = link_id ` set ls" using set_remove_at [OF i] by simp
  finally show ?thesis .
qed

lemma length_dropLinks: "length (dropLinks pos d t LINK ls) = length ls"
proof (cases "(\<exists>l\<in>set ls. link_id l = d) \<and> (\<exists>l\<in>set ls. link_id l = t) \<and> d \<noteq> t")
  case False
  then show ?thesis by (simp add: dropLinks_absent)
next
  case True
  then show ?thesis by (simp add: dropLinks_on_link length_spec_link_drop)
qed

lemma dropLinks_keeps_renumbered:
  "links_renumbered ls \<Longrightarrow> links_renumbered (dropLinks pos d t LINK ls)"
  by (cases "(\<exists>l\<in>set ls. link_id l = d) \<and> (\<exists>l\<in>set ls. link_id l = t) \<and> d \<noteq> t")
     (simp_all add: dropLinks_absent dropLinks_renumbered)

lemma fold_linkOverLink_length:
  "length (links (fold linkOverLink ops st)) = length (links st)"
proof (induction ops arbitrary: st)
  case Nil
  then show ?case by simp
next
  case (Cons op ops)
  obtain d t left where op: "op = (d, t, left)" by (cases op) auto
  show ?case by (simp add: Cons.IH op links_linkOverLink length_dropLinks del: linkOverLink.simps)
qed

lemma fold_linkOverLink_keeps_renumbered:
  "links_renumbered (links st) \<Longrightarrow> links_renumbered (links (fold linkOverLink ops st))"
proof (induction ops arbitrary: st)
  case Nil
  then show ?case by simp
next
  case (Cons op ops)
  obtain d t left where op: "op = (d, t, left)" by (cases op) auto
  have "links_renumbered (links (linkOverLink op st))"
    using Cons.prems by (simp add: op links_linkOverLink dropLinks_keeps_renumbered del: linkOverLink.simps)
  then show ?case using Cons.IH by simp
qed

lemma fold_linkOverLink_renumbered:
  assumes "(d, t, left) \<in> set ops" "d \<noteq> t"
    "\<exists>l\<in>set (links st). link_id l = d" "\<exists>l\<in>set (links st). link_id l = t"
  shows "links_renumbered (links (fold linkOverLink ops st))"
  using assms
proof (induction ops arbitrary: st)
  case Nil
  then show ?case by simp
next
  case (Cons op ops)
  obtain d' t' left' where op: "op = (d', t', left')" by (cases op) auto
  show ?case
  proof (cases "op = (d, t, left)")
    case True
    then have "links_renumbered (links (linkOverLink op st))"
      using Cons.prems by (simp add: links_linkOverLink dropLinks_renumbered del: linkOverLink.simps)
    then show ?thesis by (simp add: fold_linkOverLink_keeps_renumbered)
  next
    case False
    then have mem: "(d, t, left) \<in> set ops" using Cons.prems(1) by simp
    have ids: "link_id ` set (links (linkOverLink op st)) = link_id ` set (links st)"
      by (simp add: op links_linkOverLink link_ids_dropLinks del: linkOverLink.simps)
    have "\<exists>l\<in>set (links (linkOverLink op st)). link_id l = d"
         "\<exists>l\<in>set (links (linkOverLink op st)). link_id l = t"
      using Cons.prems(3,4) ids by (metis (mono_tags, lifting) image_iff)+
    from Cons.IH [OF mem Cons.prems(2) this] show ?thesis by simp
  qed
qed

lemma renumbered_filter_strict:
  assumes "links_renumbered ls"
  shows "sorted_wrt (<) (map link_order (filter P ls))"
proof -
  have "sorted_wrt (<) (map int [0..<length ls])"
    by (simp add: sorted_wrt_map)
  then have "sorted_wrt (\<lambda>a b. link_order a < link_order b) ls"
    using assms by (simp add: links_renumbered_def sorted_wrt_map flip: sorted_wrt_map [of "(<)" link_order])
  then have "sorted_wrt (\<lambda>a b. link_order a < link_order b) (filter P ls)"
    by (rule sorted_wrt_filter)
  then show ?thesis by (simp add: sorted_wrt_map)
qed

lemma renumbered_nth:
  "links_renumbered ls \<Longrightarrow> n < length ls \<Longrightarrow> link_order (ls ! n) = int n"
  by (metis links_renumbered_def length_map nth_map nth_upt add_0 length_upt minus_nat.diff_0)

lemma renumbered_range:
  assumes "links_renumbered ls" "l \<in> set ls"
  shows "0 \<le> link_order l \<and> link_order l < int (length ls)"
proof -
  from assms(2) obtain n where "n < length ls" "l = ls ! n" by (auto simp: in_set_conv_nth)
  then show ?thesis using renumbered_nth [OF assms(1)] by simp
qed

lemma whiteSpaces_nonempty: "w \<in> set whiteSpaces \<Longrightarrow> w \<noteq> []"
  by (auto simp: whiteSpaces_def)

lemma trimStart_Nil: "trimStart [] = []"
proof -
  have "find (\<lambda>w. prefix w []) whiteSpaces = None"
    by (auto simp: find_None_iff dest: whiteSpaces_nonempty)
  then show ?thesis by (subst trimStart.simps) simp
qed

lemma trimEnd_Nil: "trimEnd [] = []"
proof -
  have "find (\<lambda>w. suffix w []) whiteSpaces = None"
    by (auto simp: find_None_iff dest: whiteSpaces_nonempty)
  then show ?thesis by (subst trimEnd.simps) simp
qed

lemma trim_Nil: "trim [] = []"
  by (simp add: trim_def trimStart_Nil trimEnd_Nil)

lemma getFilteredLinks_sorted_id:
  "sorted_wrt (<) (map link_order ls) \<Longrightarrow> getFilteredLinks R [] ls = ls"
  by (simp add: getFilteredLinks_def trim_Nil sortByOrder_def sort_key_id_if_sorted
        strict_sorted_iff)

lemma renumbered_distinct: "links_renumbered ls \<Longrightarrow> distinct (map link_order ls)"
  by (simp add: links_renumbered_def distinct_map)

lemma dropLinks_keeps_distinct:
  "distinct (map link_order ls) \<Longrightarrow> distinct (map link_order (dropLinks pos d t LINK ls))"
  by (cases "(\<exists>l\<in>set ls. link_id l = d) \<and> (\<exists>l\<in>set ls. link_id l = t) \<and> d \<noteq> t")
     (simp_all add: dropLinks_absent dropLinks_renumbered renumbered_distinct)

lemma fold_linkOverLink_keeps_distinct:
  "distinct (map link_order (links st)) \<Longrightarrow>
     distinct (map link_order (links (fold linkOverLink ops st)))"
proof (induction ops arbitrary: st)
  case Nil
  then show ?case by simp
next
  case (Cons op ops)
  obtain d t left where op: "op = (d, t, left)" by (cases op) auto
  have "distinct (map link_order (links (linkOverLink op st)))"
    using Cons.prems
    by (simp add: op links_linkOverLink dropLinks_keeps_distinct del: linkOverLink.simps)
  then show ?case using Cons.IH by simp
qed

lemma positions_per_category:
  assumes ren: "links_renumbered final"
  shows "sorted_wrt (<) (map link_order (filter (\<lambda>l. link_categoryId l = c) final)) \<and>
         (\<forall>l \<in> set (filter (\<lambda>l. link_categoryId l = c) final).
            0 \<le> link_order l \<and> link_order l < int (length final)) \<and>
         getFilteredLinks R [] (filter (\<lambda>l. link_categoryId l = c) final)
           = filter (\<lambda>l. link_categoryId l = c) final"
proof -
  have s: "sorted_wrt (<) (map link_order (filter (\<lambda>l. link_categoryId l = c) final))"
    by (rule renumbered_filter_strict [OF ren])
  moreover have "\<forall>l \<in> set (filter (\<lambda>l. link_categoryId l = c) final).
                 0 \<le> link_order l \<and> link_order l < int (length final)"
    using renumbered_range [OF ren] by simp
  ultimately show ?thesis using getFilteredLinks_sorted_id [OF s] by blast
qed

text \<open>
  Claim C3, as the code has it. A sequence of link-over-link gestures keeps the number of
  links. From a state whose links carry distinct orders, the final orders are distinct, in
  the whole list and so in every category. When at least one gesture of the sequence drops
  a link of the list on another link of the list, the final \<^verbatim>\<open>order\<close> of every link is its
  position in the whole flat list: the orders of the links of one category are numbers below
  the total number of links (not below the category's own number of links), they increase
  along the flat list, and sorting the category's links by \<^verbatim>\<open>order\<close>, as the display does,
  gives them in the sequence of the flat list.
\<close>

theorem link_reorder_sequence:
  fixes ops :: "(string \<times> string \<times> bool) list" and st :: AppState
  defines "final \<equiv> links (fold linkOverLink ops st)"
  shows "length final = length (links st) \<and>
         (distinct (map link_order (links st)) \<longrightarrow>
            distinct (map link_order final) \<and>
            (\<forall>c. distinct (map link_order (filter (\<lambda>l. link_categoryId l = c) final)))) \<and>
         ((\<exists>(d, t, left) \<in> set ops.
              d \<noteq> t \<and> (\<exists>l\<in>set (links st). link_id l = d) \<and>
              (\<exists>l\<in>set (links st). link_id l = t)) \<longrightarrow>
            (\<forall>n < length final. link_order (final ! n) = int n) \<and>
            (\<forall>c. sorted_wrt (<) (map link_order (filter (\<lambda>l. link_categoryId l = c) final)) \<and>
                 (\<forall>l \<in> set (filter (\<lambda>l. link_categoryId l = c) final).
                    0 \<le> link_order l \<and> link_order l < int (length final)) \<and>
                 getFilteredLinks R [] (filter (\<lambda>l. link_categoryId l = c) final)
                   = filter (\<lambda>l. link_categoryId l = c) final))"
proof -
  have len: "length final = length (links st)"
    unfolding final_def by (rule fold_linkOverLink_length)
  have dist: "distinct (map link_order final) \<and>
            (\<forall>c. distinct (map link_order (filter (\<lambda>l. link_categoryId l = c) final)))"
    if "distinct (map link_order (links st))"
  proof -
    from that have d: "distinct (map link_order final)"
      unfolding final_def by (rule fold_linkOverLink_keeps_distinct)
    then have "distinct (map link_order (filter (\<lambda>l. link_categoryId l = c) final))" for c
      by (rule distinct_map_filter)
    with d show ?thesis by blast
  qed
  have pos: "(\<forall>n < length final. link_order (final ! n) = int n) \<and>
            (\<forall>c. sorted_wrt (<) (map link_order (filter (\<lambda>l. link_categoryId l = c) final)) \<and>
                 (\<forall>l \<in> set (filter (\<lambda>l. link_categoryId l = c) final).
                    0 \<le> link_order l \<and> link_order l < int (length final)) \<and>
                 getFilteredLinks R [] (filter (\<lambda>l. link_categoryId l = c) final)
                   = filter (\<lambda>l. link_categoryId l = c) final)"
    if "\<exists>(d, t, left) \<in> set ops.
              d \<noteq> t \<and> (\<exists>l\<in>set (links st). link_id l = d) \<and>
              (\<exists>l\<in>set (links st). link_id l = t)"
  proof -
    from that obtain d t left where "(d, t, left) \<in> set ops" "d \<noteq> t"
      "\<exists>l\<in>set (links st). link_id l = d" "\<exists>l\<in>set (links st). link_id l = t"
      by auto
    then have ren: "links_renumbered final"
      unfolding final_def by (rule fold_linkOverLink_renumbered)
    have "\<forall>n < length final. link_order (final ! n) = int n"
      using renumbered_nth [OF ren] by simp
    with positions_per_category [OF ren] show ?thesis by blast
  qed
  from len dist pos show ?thesis by blast
qed

lemma demo_drag_a_after_c:
  "links (linkOverLink (''a'', ''c'', False) demo_state) =
     [demo_link ''b'' ''Y'' 0, demo_link ''c'' ''X'' 1, demo_link ''a'' ''X'' 2]"
  by (simp add: links_linkOverLink demo_state_def demo_link_def dropLinks_def Let_def
        splice_js_def map_index_def del: linkOverLink.simps)

lemma demo_drag_b_before_a:
  "links st = [demo_link ''b'' ''Y'' 0, demo_link ''c'' ''X'' 1, demo_link ''a'' ''X'' 2] \<Longrightarrow>
   links (linkOverLink (''b'', ''a'', True) st) =
     [demo_link ''c'' ''X'' 0, demo_link ''b'' ''X'' 1, demo_link ''a'' ''X'' 2]"
  by (simp add: links_linkOverLink demo_link_def dropLinks_def Let_def
        splice_js_def map_index_def del: linkOverLink.simps)

theorem link_reorder_sequence_witness:
  "distinct (map link_order (links demo_state)) \<and>
   (\<exists>(d, t, left) \<in> set [(''a'', ''c'', False), (''b'', ''a'', True)].
      d \<noteq> t \<and> (\<exists>l\<in>set (links demo_state). link_id l = d) \<and>
      (\<exists>l\<in>set (links demo_state). link_id l = t)) \<and>
   links (fold linkOverLink [(''a'', ''c'', False), (''b'', ''a'', True)] demo_state) =
     [demo_link ''c'' ''X'' 0, demo_link ''b'' ''X'' 1, demo_link ''a'' ''X'' 2] \<and>
   distinct (map link_order
     (links (fold linkOverLink [(''a'', ''c'', False), (''b'', ''a'', True)] demo_state))) \<and>
   getFilteredLinks demo_runtime []
     (filter (\<lambda>l. link_categoryId l = ''X'')
        (links (fold linkOverLink [(''a'', ''c'', False), (''b'', ''a'', True)] demo_state)))
     = filter (\<lambda>l. link_categoryId l = ''X'')
        (links (fold linkOverLink [(''a'', ''c'', False), (''b'', ''a'', True)] demo_state))"
proof -
  let ?ops = "[(''a'', ''c'', False), (''b'', ''a'', True)]"
  have h1: "distinct (map link_order (links demo_state))"
    by (simp add: demo_state_def demo_link_def)
  have h2: "\<exists>(d, t, left) \<in> set ?ops.
      d \<noteq> t \<and> (\<exists>l\<in>set (links demo_state). link_id l = d) \<and>
      (\<exists>l\<in>set (links demo_state). link_id l = t)"
    by (simp add: demo_state_def demo_link_def)
  note inst = link_reorder_sequence [of ?ops demo_state demo_runtime]
  have ev: "links (fold linkOverLink ?ops demo_state) =
      [demo_link ''c'' ''X'' 0, demo_link ''b'' ''X'' 1, demo_link ''a'' ''X'' 2]"
    using demo_drag_b_before_a [OF demo_drag_a_after_c] by (simp del: linkOverLink.simps)
  from inst h1 have d: "distinct (map link_order (links (fold linkOverLink ?ops demo_state)))"
    by blast
  from inst h2 have g: "getFilteredLinks demo_runtime []
     (filter (\<lambda>l. link_categoryId l = ''X'') (links (fold linkOverLink ?ops demo_state)))
     = filter (\<lambda>l. link_categoryId l = ''X'') (links (fold linkOverLink ?ops demo_state))"
    by blast
  from h1 h2 ev d g show ?thesis by blast
qed

theorem link_order_per_category_counterexample:
  "distinct (map link_order (links demo_state)) \<and>
   map link_id (filter (\<lambda>l. link_categoryId l = ''X'')
       (links (fold linkOverLink [(''a'', ''c'', False)] demo_state))) = [''c'', ''a''] \<and>
   map link_order (filter (\<lambda>l. link_categoryId l = ''X'')
       (links (fold linkOverLink [(''a'', ''c'', False)] demo_state))) = [1, 2] \<and>
   set (map link_order (filter (\<lambda>l. link_categoryId l = ''X'')
       (links (fold linkOverLink [(''a'', ''c'', False)] demo_state)))) \<noteq> {0..<2}"
proof -
  have ev: "links (fold linkOverLink [(''a'', ''c'', False)] demo_state) =
      [demo_link ''b'' ''Y'' 0, demo_link ''c'' ''X'' 1, demo_link ''a'' ''X'' 2]"
    using demo_drag_a_after_c by (simp del: linkOverLink.simps)
  have "(2::int) \<notin> {0..<2}" by simp
  then have "set [1, 2::int] \<noteq> {0..<2}" by auto
  then show ?thesis
    unfolding ev by (simp add: demo_state_def demo_link_def)
qed

section \<open>Adding and deleting links\<close>

lemma handleSaveLink_new:
  "links (handleSaveLink newId now (linkData\<lparr>data_id := None\<rparr>) st) =
     links st @
       [\<lparr>link_id = newId, link_title = data_title linkData, link_url = data_url linkData,
         link_description = data_description linkData,
         link_categoryId = data_categoryId linkData, link_createdAt = now,
         link_order = int (length (links st)), link_subLinks = data_subLinks linkData\<rparr>]"
  by (simp add: handleSaveLink_def)

lemma performDelete_link:
  "links (performDelete (requestDeleteLink st i nm)) = filter (\<lambda>l. link_id l \<noteq> i) (links st)"
  by (simp add: performDelete_def requestDeleteLink_def)

text \<open>
  Claim C10. A new link is appended with \<^verbatim>\<open>order\<close> the number of links there were;
  deleting a link filters it out and leaves every other link as it was. So uniqueness of
  \<^verbatim>\<open>order\<close> is not kept: there is a state whose orders are the positions 0, 1, 2 where
  deleting the first link and adding a link gives two links of order 2; a link-over-link
  drop then makes the orders the positions again.
\<close>

theorem add_delete_break_order_uniqueness:
  "links (handleSaveLink newId now (linkData\<lparr>data_id := None\<rparr>) st)
     = links st @
       [\<lparr>link_id = newId, link_title = data_title linkData, link_url = data_url linkData,
         link_description = data_description linkData,
         link_categoryId = data_categoryId linkData, link_createdAt = now,
         link_order = int (length (links st)), link_subLinks = data_subLinks linkData\<rparr>] \<and>
   links (performDelete (requestDeleteLink st i nm)) = filter (\<lambda>l. link_id l \<noteq> i) (links st) \<and>
   (\<exists>st0 i0 nm0 newId0 now0 data0 gesture.
      links_renumbered (links st0) \<and> distinct (map link_order (links st0)) \<and>
      \<not> distinct (map link_order
            (links (handleSaveLink newId0 now0 data0 (performDelete (requestDeleteLink st0 i0 nm0))))) \<and>
      links_renumbered
        (links (linkOverLink gesture
           (handleSaveLink newId0 now0 data0 (performDelete (requestDeleteLink st0 i0 nm0))))))"
proof -
  let ?data = "\<lparr>data_id = None, data_title = ''d'', data_url = ''https://example.org/d'',
                 data_description = None, data_categoryId = ''X'', data_subLinks = []\<rparr>"
  let ?st1 = "handleSaveLink ''d'' 0 ?data (performDelete (requestDeleteLink demo_state ''b'' ''b''))"
  have a: "links_renumbered (links demo_state)"
    by (simp add: links_renumbered_def demo_state_def demo_link_def upt_rec [of 0] upt_rec [of 1]
          upt_rec [of 2])
  have b: "distinct (map link_order (links demo_state))"
    by (simp add: demo_state_def demo_link_def)
  have l1: "links ?st1 = [demo_link ''a'' ''X'' 1, demo_link ''c'' ''X'' 2,
                          (demo_link ''d'' ''X'' 2)]"
    using handleSaveLink_new [of "''d''" 0 ?data]
    by (simp add: performDelete_link demo_state_def demo_link_def)
  have c: "\<not> distinct (map link_order (links ?st1))"
    by (simp add: l1 demo_link_def)
  have d: "links_renumbered (links (linkOverLink (''d'', ''a'', True) ?st1))"
    unfolding links_linkOverLink
    by (rule dropLinks_renumbered) (simp_all add: l1 demo_link_def)
  have ex: "\<exists>st0 i0 nm0 newId0 now0 data0 gesture.
      links_renumbered (links st0) \<and> distinct (map link_order (links st0)) \<and>
      \<not> distinct (map link_order
            (links (handleSaveLink newId0 now0 data0 (performDelete (requestDeleteLink st0 i0 nm0))))) \<and>
      links_renumbered
        (links (linkOverLink gesture
           (handleSaveLink newId0 now0 data0 (performDelete (requestDeleteLink st0 i0 nm0)))))"
    using a b c d by blast
  show ?thesis
    using ex by (simp add: handleSaveLink_new performDelete_link)
qed

section \<open>The search filter\<close>























section \<open>Facts about the password hash and the routing\<close>

lemma hexDigit_inj: "m < 16 \<Longrightarrow> n < 16 \<Longrightarrow> hexDigit m = hexDigit n \<Longrightarrow> m = n"
proof -
  assume a: "m < 16" "n < 16" "hexDigit m = hexDigit n"
  have d: "distinct ''0123456789abcdef''" by simp
  have l: "length ''0123456789abcdef'' = 16" by simp
  from a show ?thesis
    unfolding hexDigit_def using nth_eq_iff_index_eq [OF d, of m n] l by simp
qed

lemma hexByte_inj: "hexByte a = hexByte b \<Longrightarrow> a = b"
proof -
  assume eq: "hexByte a = hexByte b"
  have ra: "unat a < 256" and rb: "unat b < 256"
    using unsigned_less [of a, where 'a = nat] unsigned_less [of b, where 'a = nat] by simp_all
  then have d: "unat a div 16 < 16" "unat b div 16 < 16"
    by simp_all
  have m: "unat a mod 16 < 16" "unat b mod 16 < 16"
    by simp_all
  from eq have "hexDigit (unat a div 16) = hexDigit (unat b div 16)"
    and "hexDigit (unat a mod 16) = hexDigit (unat b mod 16)"
    by (simp_all add: hexByte_def)
  then have "unat a div 16 = unat b div 16" "unat a mod 16 = unat b mod 16"
    using hexDigit_inj [OF d] hexDigit_inj [OF m] by blast+
  then have "unat a = unat b" by (metis div_mult_mod_eq)
  then show "a = b" by (rule word_unat_eq_iff [THEN iffD2])
qed

lemma concat_hexByte_inj:
  "concat (map hexByte xs) = concat (map hexByte ys) \<Longrightarrow> xs = ys"
proof (induction xs arbitrary: ys)
  case Nil
  then show ?case by (cases ys) (simp_all add: hexByte_def)
next
  case (Cons x xs)
  then obtain y ys' where ys: "ys = y # ys'" by (cases ys) (simp_all add: hexByte_def)
  have "length (hexByte x) = length (hexByte y)" by (simp add: hexByte_def)
  with Cons.prems ys have "hexByte x = hexByte y"
    and "concat (map hexByte xs) = concat (map hexByte ys')" by simp_all
  with Cons.IH ys show ?case by (simp add: hexByte_inj)
qed

lemma hashPassword_eq_iff:
  "hashPassword P a = hashPassword P b \<longleftrightarrow> sha256 P a = sha256 P b"
  by (auto simp: hashPassword_def dest: concat_hexByte_inj)

lemma hashPassword_nonempty: "sha256 P s \<noteq> [] \<Longrightarrow> hashPassword P s \<noteq> []"
  by (cases "sha256 P s") (simp_all add: hashPassword_def hexByte_def)

lemma currentHash_unconfigured:
  "config_doc env = None \<Longrightarrow> getCurrentPasswordHash P env = hashPassword P DEFAULT_PASSWORD"
  by (simp add: getCurrentPasswordHash_def getConfig_def)

lemma currentHash_configured:
  "config_doc env = Some cfg \<Longrightarrow> passwordHash cfg = Some h \<Longrightarrow> h \<noteq> [] \<Longrightarrow>
     getCurrentPasswordHash P env = h"
  by (simp add: getCurrentPasswordHash_def getConfig_def)

lemma fetch_login:
  "pathname req = ''/api/login'' \<Longrightarrow> httpMethod req = ''POST'' \<Longrightarrow>
     fetch P env req = handleLogin P env req"
  by (simp add: fetch_def)

lemma fetch_change_password:
  "pathname req = ''/api/change-password'' \<Longrightarrow> httpMethod req = ''POST'' \<Longrightarrow>
     fetch P env req = handleChangePassword P env req"
  by (simp add: fetch_def)

lemma fetch_data:
  "pathname req = ''/api/data'' \<Longrightarrow> fetch P env req = handleData P env req"
  by (simp add: fetch_def)

lemma password_field:
  "jsProp b key = None \<Longrightarrow> toString (orEmpty (jsProp b key)) = Some []"
  "jsProp b key = Some (JStr p) \<Longrightarrow> toString (orEmpty (jsProp b key)) = Some p"
  by (simp_all add: orEmpty_def)
lemma password_text:
  "toString (orEmpty None) = Some []"
  "toString (orEmpty (Some JNull)) = Some []"
  "toString (orEmpty (Some (JBool False))) = Some []"
  "toString (orEmpty (Some (JBool True))) = Some ''true''"
  "toString (orEmpty (Some (JStr p))) = Some p"
  "toString (orEmpty (Some (JNum n))) = Some (if n = ''0'' then [] else n)"
  "toString (orEmpty (Some (JArr []))) = Some []"
  "toString (orEmpty (Some (JObj []))) = Some ''[object Object]''"
  by (simp_all add: orEmpty_def joinComma_def)

lemma maxAge_text: "decimal (60 * 60 * 24 * 30) = ''2592000''"
  by simp

lemma setAuthCookie_text:
  "setAuthCookie P h =
     ''LM_AUTH='' @ encodeURIComponent P h @
       ''; Path=/; HttpOnly; Secure; SameSite=Lax; Max-Age=2592000''"
  unfolding setAuthCookie_def AUTH_COOKIE_def maxAge_text by simp

lemma currentHash_cases:
  "config_doc env = None \<Longrightarrow> getCurrentPasswordHash P env = hashPassword P ''linkmanager''"
  "config_doc env = Some cfg \<Longrightarrow> passwordHash cfg = None \<Longrightarrow>
     getCurrentPasswordHash P env = hashPassword P ''linkmanager''"
  "config_doc env = Some cfg \<Longrightarrow> passwordHash cfg = Some [] \<Longrightarrow>
     getCurrentPasswordHash P env = hashPassword P ''linkmanager''"
  "config_doc env = Some cfg \<Longrightarrow> passwordHash cfg = Some h \<Longrightarrow> h \<noteq> [] \<Longrightarrow>
     getCurrentPasswordHash P env = h"
  by (simp_all add: getCurrentPasswordHash_def getConfig_def DEFAULT_PASSWORD_def)

lemma hexDigit_hex: "n < 16 \<Longrightarrow> hexDigit n \<in> set ''0123456789abcdef''"
  unfolding hexDigit_def by (rule nth_mem) simp

lemma hexByte_hex: "c \<in> set (hexByte b) \<Longrightarrow> c \<in> set ''0123456789abcdef''"
proof -
  assume c: "c \<in> set (hexByte b)"
  have d: "unat b div 16 < 16"
    using unsigned_less [of b, where 'a = nat] by simp
  have m: "unat b mod 16 < 16" by simp
  from c have "c = hexDigit (unat b div 16) \<or> c = hexDigit (unat b mod 16)"
    by (simp add: hexByte_def)
  then show ?thesis
    using hexDigit_hex [OF d] hexDigit_hex [OF m] by blast
qed

lemma hashPassword_hex: "c \<in> set (hashPassword P s) \<Longrightarrow> c \<in> set ''0123456789abcdef''"
proof -
  assume "c \<in> set (hashPassword P s)"
  then obtain b where "c \<in> set (hexByte b)"
    unfolding hashPassword_def by (auto simp del: set_simps list.set)
  then show ?thesis by (rule hexByte_hex)
qed

lemma length_concat_hexByte: "length (concat (map hexByte bs)) = 2 * length bs"
  by (induction bs) (simp_all add: hexByte_def)

lemma hashPassword_length: "length (hashPassword P s) = 2 * length (sha256 P s)"
  unfolding hashPassword_def by (rule length_concat_hexByte)

lemma currentHash_nonempty:
  "\<forall>s. sha256 P s \<noteq> [] \<Longrightarrow> getCurrentPasswordHash P env \<noteq> []"
  by (simp add: getCurrentPasswordHash_def hashPassword_nonempty split: option.splits)

section \<open>Login\<close>

text \<open>
  Claim C8. A POST to \<^verbatim>\<open>/api/login\<close> is answered with 400 and an error body when the body
  does not parse, with 400 when the password field is missing or empty, with 401 and
  \<^verbatim>\<open>{"error":"Wrong password"}\<close> when the hash of the password is not the hash in force,
  and with 200, \<^verbatim>\<open>{"ok":true}\<close> and the header
  \<^verbatim>\<open>Set-Cookie: LM_AUTH=<hash in force>; Path=/; HttpOnly; Secure; SameSite=Lax; Max-Age=2592000\<close>
  (the hash passed through \<^verbatim>\<open>encodeURIComponent\<close>) when it is. The same holds of a password
  field of any JSON value, read as the text of \<^verbatim>\<open>(password || "").toString()\<close>: an empty
  text is answered 400, and a value whose \<^verbatim>\<open>toString\<close> cannot be called leaves a
  \<^verbatim>\<open>TypeError\<close> uncaught. The hash in force is the stored hash when the store holds a
  non-empty one, and the hash of the default password \<^verbatim>\<open>linkmanager\<close> otherwise; two
  passwords have the same hash exactly when they have the same digest. The store is not
  changed.
\<close>

theorem login_responses:
  assumes "pathname req = ''/api/login''" and "httpMethod req = ''POST''"
  shows "(body req = None \<longrightarrow>
            fetch P env req =
              (Respond \<lparr>status = 400, content = JObj [(''error'', JStr ''Invalid JSON'')],
                 headers = [(''Content-Type'', ''application/json; charset=utf-8'')]\<rparr>, env)) \<and>
         (\<forall>b. body req = Some b \<and>
               (jsProp b ''password'' = None \<or> jsProp b ''password'' = Some (JStr [])) \<longrightarrow>
            fetch P env req =
              (Respond \<lparr>status = 400, content = JObj [(''error'', JStr ''Password required'')],
                 headers = [(''Content-Type'', ''application/json; charset=utf-8'')]\<rparr>, env)) \<and>
         (\<forall>b p. body req = Some b \<and> jsProp b ''password'' = Some (JStr p) \<and> p \<noteq> [] \<and>
                 hashPassword P p \<noteq> getCurrentPasswordHash P env \<longrightarrow>
            fetch P env req =
              (Respond \<lparr>status = 401, content = JObj [(''error'', JStr ''Wrong password'')],
                 headers = [(''Content-Type'', ''application/json; charset=utf-8'')]\<rparr>, env)) \<and>
         (\<forall>b p. body req = Some b \<and> jsProp b ''password'' = Some (JStr p) \<and> p \<noteq> [] \<and>
                 hashPassword P p = getCurrentPasswordHash P env \<longrightarrow>
            fetch P env req =
              (Respond \<lparr>status = 200, content = JObj [(''ok'', JBool True)],
                 headers = [(''Set-Cookie'',
                              ''LM_AUTH='' @ encodeURIComponent P (getCurrentPasswordHash P env) @
                              ''; Path=/; HttpOnly; Secure; SameSite=Lax; Max-Age=2592000''),
                            (''Content-Type'', ''application/json; charset=utf-8'')]\<rparr>, env)) \<and>
         (\<forall>b. body req = Some b \<and> toString (orEmpty (jsProp b ''password'')) = None \<longrightarrow>
            fetch P env req = (Thrown ''TypeError'', env)) \<and>
         (\<forall>b. body req = Some b \<and> toString (orEmpty (jsProp b ''password'')) = Some [] \<longrightarrow>
            fetch P env req =
              (Respond \<lparr>status = 400, content = JObj [(''error'', JStr ''Password required'')],
                 headers = [(''Content-Type'', ''application/json; charset=utf-8'')]\<rparr>, env)) \<and>
         (\<forall>b p. body req = Some b \<and> toString (orEmpty (jsProp b ''password'')) = Some p \<and>
                 p \<noteq> [] \<and> hashPassword P p \<noteq> getCurrentPasswordHash P env \<longrightarrow>
            fetch P env req =
              (Respond \<lparr>status = 401, content = JObj [(''error'', JStr ''Wrong password'')],
                 headers = [(''Content-Type'', ''application/json; charset=utf-8'')]\<rparr>, env)) \<and>
         (\<forall>b p. body req = Some b \<and> toString (orEmpty (jsProp b ''password'')) = Some p \<and>
                 p \<noteq> [] \<and> hashPassword P p = getCurrentPasswordHash P env \<longrightarrow>
            fetch P env req =
              (Respond \<lparr>status = 200, content = JObj [(''ok'', JBool True)],
                 headers = [(''Set-Cookie'',
                              ''LM_AUTH='' @ encodeURIComponent P (getCurrentPasswordHash P env) @
                              ''; Path=/; HttpOnly; Secure; SameSite=Lax; Max-Age=2592000''),
                            (''Content-Type'', ''application/json; charset=utf-8'')]\<rparr>, env)) \<and>
         (config_doc env = None \<longrightarrow>
            getCurrentPasswordHash P env = hashPassword P DEFAULT_PASSWORD) \<and>
         (\<forall>cfg. config_doc env = Some cfg \<and>
                (passwordHash cfg = None \<or> passwordHash cfg = Some []) \<longrightarrow>
            getCurrentPasswordHash P env = hashPassword P ''linkmanager'') \<and>
         (\<forall>cfg h. config_doc env = Some cfg \<and> passwordHash cfg = Some h \<and> h \<noteq> [] \<longrightarrow>
            getCurrentPasswordHash P env = h) \<and>
         (\<forall>p q. hashPassword P p = hashPassword P q \<longleftrightarrow> sha256 P p = sha256 P q) \<and>
         (\<forall>p. length (hashPassword P p) = 2 * length (sha256 P p) \<and>
              set (hashPassword P p) \<subseteq> set ''0123456789abcdef'')"
proof -
  have f: "fetch P env req = handleLogin P env req"
    by (rule fetch_login [OF assms])
  have c1: "body req = None \<longrightarrow>
            fetch P env req =
              (Respond \<lparr>status = 400, content = JObj [(''error'', JStr ''Invalid JSON'')],
                 headers = [(''Content-Type'', ''application/json; charset=utf-8'')]\<rparr>, env)"
    by (simp add: f handleLogin_def json_def errorBody_def)
  have g0: "\<forall>b. body req = Some b \<and> toString (orEmpty (jsProp b ''password'')) = None \<longrightarrow>
            fetch P env req = (Thrown ''TypeError'', env)"
    by (simp add: f handleLogin_def)
  have g1: "\<forall>b. body req = Some b \<and> toString (orEmpty (jsProp b ''password'')) = Some [] \<longrightarrow>
            fetch P env req =
              (Respond \<lparr>status = 400, content = JObj [(''error'', JStr ''Password required'')],
                 headers = [(''Content-Type'', ''application/json; charset=utf-8'')]\<rparr>, env)"
    by (simp add: f handleLogin_def json_def errorBody_def)
  have g2: "\<forall>b p. body req = Some b \<and> toString (orEmpty (jsProp b ''password'')) = Some p \<and>
                 p \<noteq> [] \<and> hashPassword P p \<noteq> getCurrentPasswordHash P env \<longrightarrow>
            fetch P env req =
              (Respond \<lparr>status = 401, content = JObj [(''error'', JStr ''Wrong password'')],
                 headers = [(''Content-Type'', ''application/json; charset=utf-8'')]\<rparr>, env)"
    by (simp add: f handleLogin_def json_def errorBody_def Let_def)
  have g3: "\<forall>b p. body req = Some b \<and> toString (orEmpty (jsProp b ''password'')) = Some p \<and>
                 p \<noteq> [] \<and> hashPassword P p = getCurrentPasswordHash P env \<longrightarrow>
            fetch P env req =
              (Respond \<lparr>status = 200, content = JObj [(''ok'', JBool True)],
                 headers = [(''Set-Cookie'',
                              ''LM_AUTH='' @ encodeURIComponent P (getCurrentPasswordHash P env) @
                              ''; Path=/; HttpOnly; Secure; SameSite=Lax; Max-Age=2592000''),
                            (''Content-Type'', ''application/json; charset=utf-8'')]\<rparr>, env)"
    by (simp add: f handleLogin_def json_def okBody_def Let_def setAuthCookie_text)
  have c2: "\<forall>b. body req = Some b \<and>
               (jsProp b ''password'' = None \<or> jsProp b ''password'' = Some (JStr [])) \<longrightarrow>
            fetch P env req =
              (Respond \<lparr>status = 400, content = JObj [(''error'', JStr ''Password required'')],
                 headers = [(''Content-Type'', ''application/json; charset=utf-8'')]\<rparr>, env)"
  proof (intro allI impI)
    fix b
    assume a: "body req = Some b \<and>
               (jsProp b ''password'' = None \<or> jsProp b ''password'' = Some (JStr []))"
    then have "toString (orEmpty (jsProp b ''password'')) = Some []"
      using password_field [of b "''password''"] by blast
    with a g1 show "fetch P env req =
              (Respond \<lparr>status = 400, content = JObj [(''error'', JStr ''Password required'')],
                 headers = [(''Content-Type'', ''application/json; charset=utf-8'')]\<rparr>, env)"
      by blast
  qed
  have c3: "\<forall>b p. body req = Some b \<and> jsProp b ''password'' = Some (JStr p) \<and> p \<noteq> [] \<and>
                 hashPassword P p \<noteq> getCurrentPasswordHash P env \<longrightarrow>
            fetch P env req =
              (Respond \<lparr>status = 401, content = JObj [(''error'', JStr ''Wrong password'')],
                 headers = [(''Content-Type'', ''application/json; charset=utf-8'')]\<rparr>, env)"
  proof (intro allI impI)
    fix b p
    assume a: "body req = Some b \<and> jsProp b ''password'' = Some (JStr p) \<and> p \<noteq> [] \<and>
                 hashPassword P p \<noteq> getCurrentPasswordHash P env"
    then have "toString (orEmpty (jsProp b ''password'')) = Some p"
      by (simp add: password_text)
    with a g2 show "fetch P env req =
              (Respond \<lparr>status = 401, content = JObj [(''error'', JStr ''Wrong password'')],
                 headers = [(''Content-Type'', ''application/json; charset=utf-8'')]\<rparr>, env)"
      by blast
  qed
  have c4: "\<forall>b p. body req = Some b \<and> jsProp b ''password'' = Some (JStr p) \<and> p \<noteq> [] \<and>
                 hashPassword P p = getCurrentPasswordHash P env \<longrightarrow>
            fetch P env req =
              (Respond \<lparr>status = 200, content = JObj [(''ok'', JBool True)],
                 headers = [(''Set-Cookie'',
                              ''LM_AUTH='' @ encodeURIComponent P (getCurrentPasswordHash P env) @
                              ''; Path=/; HttpOnly; Secure; SameSite=Lax; Max-Age=2592000''),
                            (''Content-Type'', ''application/json; charset=utf-8'')]\<rparr>, env)"
  proof (intro allI impI)
    fix b p
    assume a: "body req = Some b \<and> jsProp b ''password'' = Some (JStr p) \<and> p \<noteq> [] \<and>
                 hashPassword P p = getCurrentPasswordHash P env"
    then have "toString (orEmpty (jsProp b ''password'')) = Some p"
      by (simp add: password_text)
    with a g3 show "fetch P env req =
              (Respond \<lparr>status = 200, content = JObj [(''ok'', JBool True)],
                 headers = [(''Set-Cookie'',
                              ''LM_AUTH='' @ encodeURIComponent P (getCurrentPasswordHash P env) @
                              ''; Path=/; HttpOnly; Secure; SameSite=Lax; Max-Age=2592000''),
                            (''Content-Type'', ''application/json; charset=utf-8'')]\<rparr>, env)"
      by blast
  qed
  have h1: "config_doc env = None \<longrightarrow>
            getCurrentPasswordHash P env = hashPassword P DEFAULT_PASSWORD"
    by (simp add: currentHash_unconfigured)
  have h2: "\<forall>cfg. config_doc env = Some cfg \<and>
                (passwordHash cfg = None \<or> passwordHash cfg = Some []) \<longrightarrow>
            getCurrentPasswordHash P env = hashPassword P ''linkmanager''"
    by (auto simp: getCurrentPasswordHash_def getConfig_def DEFAULT_PASSWORD_def)
  have h3: "\<forall>cfg h. config_doc env = Some cfg \<and> passwordHash cfg = Some h \<and> h \<noteq> [] \<longrightarrow>
            getCurrentPasswordHash P env = h"
    by (simp add: getCurrentPasswordHash_def getConfig_def)
  have h4: "\<forall>p q. hashPassword P p = hashPassword P q \<longleftrightarrow> sha256 P p = sha256 P q"
    by (simp add: hashPassword_eq_iff)
  have h5: "\<forall>p. length (hashPassword P p) = 2 * length (sha256 P p) \<and>
              set (hashPassword P p) \<subseteq> set ''0123456789abcdef''"
  proof (intro allI conjI subsetI)
    fix p show "length (hashPassword P p) = 2 * length (sha256 P p)"
      by (rule hashPassword_length)
  next
    fix p c assume "c \<in> set (hashPassword P p)"
    then show "c \<in> set ''0123456789abcdef''" by (rule hashPassword_hex)
  qed
  note r1 = conjI [OF h4 h5]
  note r2 = conjI [OF h3 r1]
  note r3 = conjI [OF h2 r2]
  note r4 = conjI [OF h1 r3]
  note r5 = conjI [OF g3 r4]
  note r6 = conjI [OF g2 r5]
  note r7 = conjI [OF g1 r6]
  note r8 = conjI [OF g0 r7]
  note r9 = conjI [OF c4 r8]
  note r10 = conjI [OF c3 r9]
  note r11 = conjI [OF c2 r10]
  show ?thesis by (rule conjI [OF c1 r11])
qed

lemma demo_hashes:
  "getCurrentPasswordHash demo_platform empty_env = ''6c696e6b6d616e6167657280''"
  "hashPassword demo_platform ''linkmanager'' = ''6c696e6b6d616e6167657280''"
  "hashPassword demo_platform ''wrong'' = ''77726f6e6780''"
  "hashPassword demo_platform ''x'' = ''7880''"
  by code_simp+

lemma demo_stored_hash:
  "getCurrentPasswordHash demo_platform
     \<lparr>config_doc = Some \<lparr>passwordHash = Some ''7880''\<rparr>, data_doc = None\<rparr> = ''7880''"
  by (simp add: getCurrentPasswordHash_def getConfig_def)

theorem login_responses_witness:
  "fetch demo_platform empty_env
     \<lparr>httpMethod = ''POST'', pathname = ''/api/login'', cookieHeader = None, body = None\<rparr> =
     (Respond \<lparr>status = 400, content = JObj [(''error'', JStr ''Invalid JSON'')],
        headers = [(''Content-Type'', ''application/json; charset=utf-8'')]\<rparr>, empty_env) \<and>
   fetch demo_platform empty_env
     \<lparr>httpMethod = ''POST'', pathname = ''/api/login'', cookieHeader = None,
      body = Some (JObj [(''user'', JStr ''me'')])\<rparr> =
     (Respond \<lparr>status = 400, content = JObj [(''error'', JStr ''Password required'')],
        headers = [(''Content-Type'', ''application/json; charset=utf-8'')]\<rparr>, empty_env) \<and>
   fetch demo_platform empty_env (loginRequest ''wrong'') =
     (Respond \<lparr>status = 401, content = JObj [(''error'', JStr ''Wrong password'')],
        headers = [(''Content-Type'', ''application/json; charset=utf-8'')]\<rparr>, empty_env) \<and>
   fetch demo_platform empty_env (loginRequest ''linkmanager'') =
     (Respond \<lparr>status = 200, content = JObj [(''ok'', JBool True)],
        headers = [(''Set-Cookie'',
                     ''LM_AUTH=6c696e6b6d616e6167657280; Path=/; HttpOnly; Secure; SameSite=Lax; Max-Age=2592000''),
                   (''Content-Type'', ''application/json; charset=utf-8'')]\<rparr>, empty_env) \<and>
   fetch demo_platform empty_env
     \<lparr>httpMethod = ''POST'', pathname = ''/api/login'', cookieHeader = None,
      body = Some (JObj [(''password'', JNum ''0'')])\<rparr> =
     (Respond \<lparr>status = 400, content = JObj [(''error'', JStr ''Password required'')],
        headers = [(''Content-Type'', ''application/json; charset=utf-8'')]\<rparr>, empty_env) \<and>
   fetch demo_platform empty_env
     \<lparr>httpMethod = ''POST'', pathname = ''/api/login'', cookieHeader = None,
      body = Some (JObj [(''password'', JObj [(''toString'', JNum ''1'')])])\<rparr> =
     (Thrown ''TypeError'', empty_env) \<and>
   fetch demo_platform \<lparr>config_doc = Some \<lparr>passwordHash = Some ''7880''\<rparr>, data_doc = None\<rparr>
     (loginRequest ''x'') =
     (Respond \<lparr>status = 200, content = JObj [(''ok'', JBool True)],
        headers = [(''Set-Cookie'',
                     ''LM_AUTH=7880; Path=/; HttpOnly; Secure; SameSite=Lax; Max-Age=2592000''),
                   (''Content-Type'', ''application/json; charset=utf-8'')]\<rparr>,
      \<lparr>config_doc = Some \<lparr>passwordHash = Some ''7880''\<rparr>, data_doc = None\<rparr>) \<and>
   fetch demo_platform \<lparr>config_doc = Some \<lparr>passwordHash = Some ''7880''\<rparr>, data_doc = None\<rparr>
     (loginRequest ''linkmanager'') =
     (Respond \<lparr>status = 401, content = JObj [(''error'', JStr ''Wrong password'')],
        headers = [(''Content-Type'', ''application/json; charset=utf-8'')]\<rparr>,
      \<lparr>config_doc = Some \<lparr>passwordHash = Some ''7880''\<rparr>, data_doc = None\<rparr>) \<and>
   getCurrentPasswordHash demo_platform empty_env = ''6c696e6b6d616e6167657280''"
proof -
  let ?r1 = "\<lparr>httpMethod = ''POST'', pathname = ''/api/login'', cookieHeader = None, body = None\<rparr>"
  let ?r2 = "\<lparr>httpMethod = ''POST'', pathname = ''/api/login'', cookieHeader = None,
              body = Some (JObj [(''user'', JStr ''me'')])\<rparr>"
  let ?r5 = "\<lparr>httpMethod = ''POST'', pathname = ''/api/login'', cookieHeader = None,
              body = Some (JObj [(''password'', JNum ''0'')])\<rparr>"
  let ?r6 = "\<lparr>httpMethod = ''POST'', pathname = ''/api/login'', cookieHeader = None,
              body = Some (JObj [(''password'', JObj [(''toString'', JNum ''1'')])])\<rparr>"
  let ?envx = "\<lparr>config_doc = Some \<lparr>passwordHash = Some ''7880''\<rparr>, data_doc = None\<rparr>"
  have enc: "encodeURIComponent demo_platform h = h" for h by (simp add: demo_platform_def)
  have route: "pathname (loginRequest p) = ''/api/login''" "httpMethod (loginRequest p) = ''POST''"
    "body (loginRequest p) = Some (JObj [(''password'', JStr p)])"
    "jsProp (JObj [(''password'', JStr p)]) ''password'' = Some (JStr p)" for p
    by (simp_all add: loginRequest_def)
  have a1: "fetch demo_platform empty_env ?r1 =
     (Respond \<lparr>status = 400, content = JObj [(''error'', JStr ''Invalid JSON'')],
        headers = [(''Content-Type'', ''application/json; charset=utf-8'')]\<rparr>, empty_env)"
    using login_responses [of ?r1 demo_platform empty_env, THEN conjunct1] by simp
  have a2: "fetch demo_platform empty_env ?r2 =
     (Respond \<lparr>status = 400, content = JObj [(''error'', JStr ''Password required'')],
        headers = [(''Content-Type'', ''application/json; charset=utf-8'')]\<rparr>, empty_env)"
    using login_responses [of ?r2 demo_platform empty_env, THEN conjunct2, THEN conjunct1]
    by simp
  have a3: "fetch demo_platform empty_env (loginRequest ''wrong'') =
     (Respond \<lparr>status = 401, content = JObj [(''error'', JStr ''Wrong password'')],
        headers = [(''Content-Type'', ''application/json; charset=utf-8'')]\<rparr>, empty_env)"
    using login_responses [OF route(1,2), of "''wrong''" demo_platform empty_env,
        THEN conjunct2, THEN conjunct2, THEN conjunct1]
    by (simp add: route demo_hashes)
  have a4: "fetch demo_platform empty_env (loginRequest ''linkmanager'') =
     (Respond \<lparr>status = 200, content = JObj [(''ok'', JBool True)],
        headers = [(''Set-Cookie'',
                     ''LM_AUTH=6c696e6b6d616e6167657280; Path=/; HttpOnly; Secure; SameSite=Lax; Max-Age=2592000''),
                   (''Content-Type'', ''application/json; charset=utf-8'')]\<rparr>, empty_env)"
    using login_responses [OF route(1,2), of "''linkmanager''" demo_platform empty_env,
        THEN conjunct2, THEN conjunct2, THEN conjunct2, THEN conjunct1]
    by (simp add: route demo_hashes enc)
  have a5: "fetch demo_platform empty_env ?r5 =
     (Respond \<lparr>status = 400, content = JObj [(''error'', JStr ''Password required'')],
        headers = [(''Content-Type'', ''application/json; charset=utf-8'')]\<rparr>, empty_env)"
    using login_responses [of ?r5 demo_platform empty_env,
        THEN conjunct2, THEN conjunct2, THEN conjunct2, THEN conjunct2, THEN conjunct2,
        THEN conjunct1]
    by (simp add: orEmpty_def)
  have a6: "fetch demo_platform empty_env ?r6 = (Thrown ''TypeError'', empty_env)"
    using login_responses [of ?r6 demo_platform empty_env,
        THEN conjunct2, THEN conjunct2, THEN conjunct2, THEN conjunct2, THEN conjunct1]
    by (simp add: orEmpty_def)
  have a7: "fetch demo_platform ?envx (loginRequest ''x'') =
     (Respond \<lparr>status = 200, content = JObj [(''ok'', JBool True)],
        headers = [(''Set-Cookie'',
                     ''LM_AUTH=7880; Path=/; HttpOnly; Secure; SameSite=Lax; Max-Age=2592000''),
                   (''Content-Type'', ''application/json; charset=utf-8'')]\<rparr>, ?envx)"
    using login_responses [OF route(1,2), of "''x''" demo_platform ?envx,
        THEN conjunct2, THEN conjunct2, THEN conjunct2, THEN conjunct1]
    by (simp add: route demo_hashes demo_stored_hash enc)
  have a8: "fetch demo_platform ?envx (loginRequest ''linkmanager'') =
     (Respond \<lparr>status = 401, content = JObj [(''error'', JStr ''Wrong password'')],
        headers = [(''Content-Type'', ''application/json; charset=utf-8'')]\<rparr>, ?envx)"
    using login_responses [OF route(1,2), of "''linkmanager''" demo_platform ?envx,
        THEN conjunct2, THEN conjunct2, THEN conjunct1]
    by (simp add: route demo_hashes demo_stored_hash)
  note a9 = demo_hashes(1)
  note r1 = conjI [OF a8 a9]
  note r2 = conjI [OF a7 r1]
  note r3 = conjI [OF a6 r2]
  note r4 = conjI [OF a5 r3]
  note r5 = conjI [OF a4 r4]
  note r6 = conjI [OF a3 r5]
  note r7 = conjI [OF a2 r6]
  show ?thesis by (rule conjI [OF a1 r7])
qed

section \<open>Changing the password\<close>

lemma splitOn_absent: "d \<notin> set s \<Longrightarrow> splitOn d s = [s]"
  by (induction s) auto

lemma splitCookie_absent: "CHR '';'' \<notin> set s \<Longrightarrow> splitCookie s = [s]"
  by (induction s) auto

lemma splitOn_first: "d \<notin> set k \<Longrightarrow> splitOn d (k @ d # v) = k # splitOn d v"
  by (induction k) auto

lemma getCookie_auth:
  assumes "h \<noteq> []" "CHR '';'' \<notin> set h" "CHR ''='' \<notin> set h" "decodeURIComponent P h = Some h"
    and "cookieHeader req = Some (AUTH_COOKIE @ ''='' @ h)"
  shows "getCookie P req AUTH_COOKIE = Inr (Some h)"
proof -
  have c: "splitCookie (AUTH_COOKIE @ CHR ''='' # h) = [AUTH_COOKIE @ CHR ''='' # h]"
    using assms(2) by (intro splitCookie_absent) (simp add: AUTH_COOKIE_def)
  have "splitOn CHR ''='' (AUTH_COOKIE @ CHR ''='' # h) = AUTH_COOKIE # splitOn CHR ''='' h"
    by (rule splitOn_first) (simp add: AUTH_COOKIE_def)
  then have s: "splitOn CHR ''='' (AUTH_COOKIE @ CHR ''='' # h) = [AUTH_COOKIE, h]"
    using assms(3) by (simp add: splitOn_absent)
  show ?thesis
    using assms(1,4,5) by (simp add: getCookie_def c s)
qed

lemma isAuthenticated_token:
  "getCookie P r AUTH_COOKIE = Inr (Some tok) \<Longrightarrow>
     isAuthenticated P r env = Inr (tok \<noteq> [] \<and> tok = getCurrentPasswordHash P env)"
  by (simp add: isAuthenticated_def)

lemma authenticate_iff:
  "p \<noteq> [] \<Longrightarrow> authenticate P env p \<longleftrightarrow> hashPassword P p = getCurrentPasswordHash P env"
  by (simp add: authenticate_def loginRequest_def fetch_def handleLogin_def orEmpty_def Let_def
        json_def)

lemma authenticate_default:
  "config_doc env = None \<Longrightarrow> authenticate P env DEFAULT_PASSWORD"
  using authenticate_iff [of DEFAULT_PASSWORD P env]
  by (simp add: currentHash_unconfigured DEFAULT_PASSWORD_def)

lemma handleChangePassword_wrong_old:
  assumes "isAuthenticated P req env = Inr True" "body req = Some b"
    "jsProp b ''oldPassword'' = Some (JStr old)" "jsProp b ''newPassword'' = Some (JStr new)"
    "old \<noteq> []" "new \<noteq> []" "hashPassword P old \<noteq> getCurrentPasswordHash P env"
  shows "handleChangePassword P env req =
           (Respond \<lparr>status = 400, content = JObj [(''error'', JStr ''Old password incorrect'')],
              headers = [(''Content-Type'', ''application/json; charset=utf-8'')]\<rparr>, env)"
  using assms
  by (simp add: handleChangePassword_def orEmpty_def Let_def json_def errorBody_def)

lemma handleChangePassword_success:
  assumes "isAuthenticated P req env = Inr True" "body req = Some b"
    "jsProp b ''oldPassword'' = Some (JStr old)" "jsProp b ''newPassword'' = Some (JStr new)"
    "old \<noteq> []" "new \<noteq> []" "hashPassword P old = getCurrentPasswordHash P env"
  shows "handleChangePassword P env req =
           (Respond \<lparr>status = 200, content = JObj [(''ok'', JBool True)],
              headers = [(''Set-Cookie'', setAuthCookie P (hashPassword P new)),
                         (''Content-Type'', ''application/json; charset=utf-8'')]\<rparr>,
            env\<lparr>config_doc := Some ((getConfig env)\<lparr>passwordHash := Some (hashPassword P new)\<rparr>)\<rparr>)"
  using assms
  by (simp add: handleChangePassword_def orEmpty_def Let_def json_def okBody_def saveConfig_def)

lemma handleChangePassword_unauthorized:
  assumes "isAuthenticated P req env = Inr False"
  shows "handleChangePassword P env req =
           (Respond \<lparr>status = 401, content = JObj [(''error'', JStr ''Unauthorized'')],
              headers = [(''Content-Type'', ''application/json; charset=utf-8'')]\<rparr>, env)"
  using assms by (simp add: handleChangePassword_def json_def errorBody_def)

lemma hex_no_separator:
  assumes "hexText h"
  shows "CHR '';'' \<notin> set h" "CHR ''='' \<notin> set h"
  using assms unfolding hexText_def by auto

lemma getCookie_hex:
  assumes "uriKeepsHex P" "hexText h" "h \<noteq> []"
    and "cookieHeader r = Some (''LM_AUTH='' @ h)"
  shows "getCookie P r AUTH_COOKIE = Inr (Some h)"
proof -
  from assms(1,2) have d: "decodeURIComponent P h = Some h" by (simp add: uriKeepsHex_def)
  from assms(4) have c: "cookieHeader r = Some (AUTH_COOKIE @ ''='' @ h)"
    by (simp add: AUTH_COOKIE_def)
  show ?thesis
    by (rule getCookie_auth [OF assms(3) hex_no_separator [OF assms(2)] d c])
qed

lemma hashPassword_hexText: "hexText (hashPassword P s)"
  unfolding hexText_def using hashPassword_hex by blast

lemma handleChangePassword_throws:
  assumes "getCookie P req AUTH_COOKIE = Inl e"
  shows "handleChangePassword P env req = (Thrown e, env)"
  using assms by (simp add: handleChangePassword_def isAuthenticated_def)

text \<open>
  Claim C7, as the code has it. With no stored configuration the default password
  \<^verbatim>\<open>linkmanager\<close> authenticates. A change-password request with both passwords given is
  decided by its \<^verbatim>\<open>LM_AUTH\<close> cookie first. If the value of the cookie does not decode, the
  \<^verbatim>\<open>URIError\<close> leaves the handler and there is no response. If there is no such cookie, or
  its value is not the hash in force, the answer is 401 \<^verbatim>\<open>Unauthorized\<close>. If the cookie is
  the hash in force and the hash of the old password is not, the answer is 400
  \<^verbatim>\<open>Old password incorrect\<close> and nothing is stored. Otherwise the hash of the new password is
  stored, the answer is 200 with the header
  \<^verbatim>\<open>Set-Cookie: LM_AUTH=<new hash>; Path=/; HttpOnly; Secure; SameSite=Lax; Max-Age=2592000\<close>
  (the hash passed through \<^verbatim>\<open>encodeURIComponent\<close>), and the new password authenticates; if
  the digests of the old and the new password differ, the old password no longer
  authenticates and a request whose cookie is the previous hash is no longer authenticated.
  On a platform whose URI functions keep hexadecimal text, the cookie issued is
  \<^verbatim>\<open>LM_AUTH=<new hash>\<close> itself, a request that sends it back is authenticated, and one that
  sends \<^verbatim>\<open>LM_AUTH=<previous hash>\<close> is not. The digest of the platform is never empty.
\<close>

theorem change_password_contract:
  assumes digest: "\<forall>s. sha256 P s \<noteq> []"
    and route: "pathname req = ''/api/change-password''" "httpMethod req = ''POST''"
    and fields: "body req = Some b" "jsProp b ''oldPassword'' = Some (JStr old)"
      "jsProp b ''newPassword'' = Some (JStr new)" "old \<noteq> []" "new \<noteq> []"
  shows "(config_doc env0 = None \<longrightarrow> authenticate P env0 ''linkmanager'') \<and>
         (\<forall>e. getCookie P req AUTH_COOKIE = Inl e \<longrightarrow> fetch P env req = (Thrown e, env)) \<and>
         (\<forall>t. getCookie P req AUTH_COOKIE = Inr t \<and> t \<noteq> Some (getCurrentPasswordHash P env) \<longrightarrow>
            fetch P env req =
              (Respond \<lparr>status = 401, content = JObj [(''error'', JStr ''Unauthorized'')],
                 headers = [(''Content-Type'', ''application/json; charset=utf-8'')]\<rparr>, env)) \<and>
         (getCookie P req AUTH_COOKIE = Inr (Some (getCurrentPasswordHash P env)) \<and>
          hashPassword P old \<noteq> getCurrentPasswordHash P env \<longrightarrow>
            fetch P env req =
              (Respond \<lparr>status = 400, content = JObj [(''error'', JStr ''Old password incorrect'')],
                 headers = [(''Content-Type'', ''application/json; charset=utf-8'')]\<rparr>, env)) \<and>
         (getCookie P req AUTH_COOKIE = Inr (Some (getCurrentPasswordHash P env)) \<and>
          hashPassword P old = getCurrentPasswordHash P env \<longrightarrow>
            fetch P env req =
              (Respond \<lparr>status = 200, content = JObj [(''ok'', JBool True)],
                 headers = [(''Set-Cookie'',
                              ''LM_AUTH='' @ encodeURIComponent P (hashPassword P new) @
                              ''; Path=/; HttpOnly; Secure; SameSite=Lax; Max-Age=2592000''),
                            (''Content-Type'', ''application/json; charset=utf-8'')]\<rparr>,
               env\<lparr>config_doc :=
                     Some ((getConfig env)\<lparr>passwordHash := Some (hashPassword P new)\<rparr>)\<rparr>) \<and>
            passwordHash (getConfig (snd (fetch P env req))) = Some (hashPassword P new) \<and>
            data_doc (snd (fetch P env req)) = data_doc env \<and>
            getCurrentPasswordHash P (snd (fetch P env req)) = hashPassword P new \<and>
            authenticate P (snd (fetch P env req)) new \<and>
            (sha256 P old \<noteq> sha256 P new \<longrightarrow>
               \<not> authenticate P (snd (fetch P env req)) old \<and>
               (\<forall>r. getCookie P r AUTH_COOKIE = Inr (Some (hashPassword P old)) \<longrightarrow>
                    isAuthenticated P r (snd (fetch P env req)) = Inr False)) \<and>
            (uriKeepsHex P \<longrightarrow>
               encodeURIComponent P (hashPassword P new) = hashPassword P new \<and>
               (\<forall>r. cookieHeader r = Some (''LM_AUTH='' @ hashPassword P new) \<longrightarrow>
                    isAuthenticated P r (snd (fetch P env req)) = Inr True) \<and>
               (sha256 P old \<noteq> sha256 P new \<longrightarrow>
                  (\<forall>r. cookieHeader r = Some (''LM_AUTH='' @ hashPassword P old) \<longrightarrow>
                       isAuthenticated P r (snd (fetch P env req)) = Inr False))))"
proof -
  have f: "fetch P env req = handleChangePassword P env req"
    by (rule fetch_change_password [OF route])
  have curne: "getCurrentPasswordHash P e \<noteq> []" for e
    using digest by (rule currentHash_nonempty)
  have c1: "config_doc env0 = None \<longrightarrow> authenticate P env0 ''linkmanager''"
    using authenticate_default [of env0 P] by (simp add: DEFAULT_PASSWORD_def)
  have c0: "\<forall>e. getCookie P req AUTH_COOKIE = Inl e \<longrightarrow> fetch P env req = (Thrown e, env)"
    by (simp add: f handleChangePassword_throws)
  have c2: "\<forall>t. getCookie P req AUTH_COOKIE = Inr t \<and> t \<noteq> Some (getCurrentPasswordHash P env) \<longrightarrow>
            fetch P env req =
              (Respond \<lparr>status = 401, content = JObj [(''error'', JStr ''Unauthorized'')],
                 headers = [(''Content-Type'', ''application/json; charset=utf-8'')]\<rparr>, env)"
  proof (intro allI impI)
    fix t
    assume a: "getCookie P req AUTH_COOKIE = Inr t \<and> t \<noteq> Some (getCurrentPasswordHash P env)"
    then have "isAuthenticated P req env = Inr False"
      by (cases t) (auto simp: isAuthenticated_def)
    then show "fetch P env req =
              (Respond \<lparr>status = 401, content = JObj [(''error'', JStr ''Unauthorized'')],
                 headers = [(''Content-Type'', ''application/json; charset=utf-8'')]\<rparr>, env)"
      by (simp add: f handleChangePassword_unauthorized)
  qed
  have authd: "isAuthenticated P req env = Inr True"
    if "getCookie P req AUTH_COOKIE = Inr (Some (getCurrentPasswordHash P env))"
    using that curne [of env] by (simp add: isAuthenticated_token)
  have c3: "getCookie P req AUTH_COOKIE = Inr (Some (getCurrentPasswordHash P env)) \<and>
          hashPassword P old \<noteq> getCurrentPasswordHash P env \<longrightarrow>
            fetch P env req =
              (Respond \<lparr>status = 400, content = JObj [(''error'', JStr ''Old password incorrect'')],
                 headers = [(''Content-Type'', ''application/json; charset=utf-8'')]\<rparr>, env)"
  proof
    assume a: "getCookie P req AUTH_COOKIE = Inr (Some (getCurrentPasswordHash P env)) \<and>
          hashPassword P old \<noteq> getCurrentPasswordHash P env"
    then have au: "isAuthenticated P req env = Inr True" by (simp add: authd)
    from a have w: "hashPassword P old \<noteq> getCurrentPasswordHash P env" by simp
    show "fetch P env req =
              (Respond \<lparr>status = 400, content = JObj [(''error'', JStr ''Old password incorrect'')],
                 headers = [(''Content-Type'', ''application/json; charset=utf-8'')]\<rparr>, env)"
      unfolding f by (rule handleChangePassword_wrong_old [OF au fields w])
  qed
  let ?env' = "env\<lparr>config_doc := Some ((getConfig env)\<lparr>passwordHash := Some (hashPassword P new)\<rparr>)\<rparr>"
  have c4: "getCookie P req AUTH_COOKIE = Inr (Some (getCurrentPasswordHash P env)) \<and>
          hashPassword P old = getCurrentPasswordHash P env \<longrightarrow>
            fetch P env req =
              (Respond \<lparr>status = 200, content = JObj [(''ok'', JBool True)],
                 headers = [(''Set-Cookie'',
                              ''LM_AUTH='' @ encodeURIComponent P (hashPassword P new) @
                              ''; Path=/; HttpOnly; Secure; SameSite=Lax; Max-Age=2592000''),
                            (''Content-Type'', ''application/json; charset=utf-8'')]\<rparr>, ?env') \<and>
            passwordHash (getConfig (snd (fetch P env req))) = Some (hashPassword P new) \<and>
            data_doc (snd (fetch P env req)) = data_doc env \<and>
            getCurrentPasswordHash P (snd (fetch P env req)) = hashPassword P new \<and>
            authenticate P (snd (fetch P env req)) new \<and>
            (sha256 P old \<noteq> sha256 P new \<longrightarrow>
               \<not> authenticate P (snd (fetch P env req)) old \<and>
               (\<forall>r. getCookie P r AUTH_COOKIE = Inr (Some (hashPassword P old)) \<longrightarrow>
                    isAuthenticated P r (snd (fetch P env req)) = Inr False)) \<and>
            (uriKeepsHex P \<longrightarrow>
               encodeURIComponent P (hashPassword P new) = hashPassword P new \<and>
               (\<forall>r. cookieHeader r = Some (''LM_AUTH='' @ hashPassword P new) \<longrightarrow>
                    isAuthenticated P r (snd (fetch P env req)) = Inr True) \<and>
               (sha256 P old \<noteq> sha256 P new \<longrightarrow>
                  (\<forall>r. cookieHeader r = Some (''LM_AUTH='' @ hashPassword P old) \<longrightarrow>
                       isAuthenticated P r (snd (fetch P env req)) = Inr False)))"
  proof
    assume a: "getCookie P req AUTH_COOKIE = Inr (Some (getCurrentPasswordHash P env)) \<and>
          hashPassword P old = getCurrentPasswordHash P env"
    then have au: "isAuthenticated P req env = Inr True" by (simp add: authd)
    from a have old: "hashPassword P old = getCurrentPasswordHash P env" by simp
    have r: "fetch P env req =
           (Respond \<lparr>status = 200, content = JObj [(''ok'', JBool True)],
              headers = [(''Set-Cookie'',
                              ''LM_AUTH='' @ encodeURIComponent P (hashPassword P new) @
                              ''; Path=/; HttpOnly; Secure; SameSite=Lax; Max-Age=2592000''),
                         (''Content-Type'', ''application/json; charset=utf-8'')]\<rparr>, ?env')"
      using handleChangePassword_success [OF au fields old]
      by (simp add: f setAuthCookie_text)
    then have s: "snd (fetch P env req) = ?env'" by simp
    have ne: "hashPassword P new \<noteq> []" "hashPassword P old \<noteq> []"
      using digest by (simp_all add: hashPassword_nonempty)
    have cur: "getCurrentPasswordHash P ?env' = hashPassword P new"
      using ne by (simp add: getCurrentPasswordHash_def getConfig_def)
    have cfg: "passwordHash (getConfig ?env') = Some (hashPassword P new)"
      by (simp add: getConfig_def)
    have dat: "data_doc ?env' = data_doc env" by simp
    have new: "authenticate P ?env' new"
      using fields(5) by (simp add: authenticate_iff cur)
    have gone: "sha256 P old \<noteq> sha256 P new \<longrightarrow>
               \<not> authenticate P ?env' old \<and>
               (\<forall>r. getCookie P r AUTH_COOKIE = Inr (Some (hashPassword P old)) \<longrightarrow>
                    isAuthenticated P r ?env' = Inr False)"
    proof
      assume "sha256 P old \<noteq> sha256 P new"
      then have d: "hashPassword P old \<noteq> hashPassword P new"
        by (simp add: hashPassword_eq_iff)
      then show "\<not> authenticate P ?env' old \<and>
               (\<forall>r. getCookie P r AUTH_COOKIE = Inr (Some (hashPassword P old)) \<longrightarrow>
                    isAuthenticated P r ?env' = Inr False)"
        using fields(4) by (simp add: authenticate_iff cur isAuthenticated_token)
    qed
    have hex: "uriKeepsHex P \<longrightarrow>
               encodeURIComponent P (hashPassword P new) = hashPassword P new \<and>
               (\<forall>r. cookieHeader r = Some (''LM_AUTH='' @ hashPassword P new) \<longrightarrow>
                    isAuthenticated P r ?env' = Inr True) \<and>
               (sha256 P old \<noteq> sha256 P new \<longrightarrow>
                  (\<forall>r. cookieHeader r = Some (''LM_AUTH='' @ hashPassword P old) \<longrightarrow>
                       isAuthenticated P r ?env' = Inr False))"
    proof
      assume u: "uriKeepsHex P"
      then have e: "encodeURIComponent P (hashPassword P new) = hashPassword P new"
        using hashPassword_hexText [of P new] by (simp add: uriKeepsHex_def)
      have n: "isAuthenticated P r ?env' = Inr True"
        if "cookieHeader r = Some (''LM_AUTH='' @ hashPassword P new)" for r
        using getCookie_hex [OF u hashPassword_hexText ne(1) that] ne(1)
        by (simp add: isAuthenticated_token cur)
      have o: "isAuthenticated P r ?env' = Inr False"
        if "sha256 P old \<noteq> sha256 P new"
          and "cookieHeader r = Some (''LM_AUTH='' @ hashPassword P old)" for r
      proof -
        from that(1) have "hashPassword P old \<noteq> hashPassword P new"
          by (simp add: hashPassword_eq_iff)
        then show ?thesis
          using getCookie_hex [OF u hashPassword_hexText ne(2) that(2)]
          by (simp add: isAuthenticated_token cur)
      qed
      from e n o show "encodeURIComponent P (hashPassword P new) = hashPassword P new \<and>
               (\<forall>r. cookieHeader r = Some (''LM_AUTH='' @ hashPassword P new) \<longrightarrow>
                    isAuthenticated P r ?env' = Inr True) \<and>
               (sha256 P old \<noteq> sha256 P new \<longrightarrow>
                  (\<forall>r. cookieHeader r = Some (''LM_AUTH='' @ hashPassword P old) \<longrightarrow>
                       isAuthenticated P r ?env' = Inr False))"
        by blast
    qed
    note k1 = conjI [OF gone hex]
    note k2 = conjI [OF new k1]
    note k3 = conjI [OF cur k2]
    note k4 = conjI [OF dat k3]
    note k5 = conjI [OF cfg k4]
    note k6 = conjI [OF r k5 [folded s]]
    show "fetch P env req =
              (Respond \<lparr>status = 200, content = JObj [(''ok'', JBool True)],
                 headers = [(''Set-Cookie'',
                              ''LM_AUTH='' @ encodeURIComponent P (hashPassword P new) @
                              ''; Path=/; HttpOnly; Secure; SameSite=Lax; Max-Age=2592000''),
                            (''Content-Type'', ''application/json; charset=utf-8'')]\<rparr>, ?env') \<and>
            passwordHash (getConfig (snd (fetch P env req))) = Some (hashPassword P new) \<and>
            data_doc (snd (fetch P env req)) = data_doc env \<and>
            getCurrentPasswordHash P (snd (fetch P env req)) = hashPassword P new \<and>
            authenticate P (snd (fetch P env req)) new \<and>
            (sha256 P old \<noteq> sha256 P new \<longrightarrow>
               \<not> authenticate P (snd (fetch P env req)) old \<and>
               (\<forall>r. getCookie P r AUTH_COOKIE = Inr (Some (hashPassword P old)) \<longrightarrow>
                    isAuthenticated P r (snd (fetch P env req)) = Inr False)) \<and>
            (uriKeepsHex P \<longrightarrow>
               encodeURIComponent P (hashPassword P new) = hashPassword P new \<and>
               (\<forall>r. cookieHeader r = Some (''LM_AUTH='' @ hashPassword P new) \<longrightarrow>
                    isAuthenticated P r (snd (fetch P env req)) = Inr True) \<and>
               (sha256 P old \<noteq> sha256 P new \<longrightarrow>
                  (\<forall>r. cookieHeader r = Some (''LM_AUTH='' @ hashPassword P old) \<longrightarrow>
                       isAuthenticated P r (snd (fetch P env req)) = Inr False)))"
      by (rule k6)
  qed
  note j1 = conjI [OF c3 c4]
  note j2 = conjI [OF c2 j1]
  note j3 = conjI [OF c0 j2]
  show ?thesis by (rule conjI [OF c1 j3])
qed

lemma demo_cookie_authenticated:
  "isAuthenticated demo_platform
     (changePasswordRequest (Some ''LM_AUTH=6c696e6b6d616e6167657280'') old new) empty_env
     = Inr True"
  "getCookie demo_platform
     (changePasswordRequest (Some ''LM_AUTH=6c696e6b6d616e6167657280'') old new) AUTH_COOKIE
     = Inr (Some ''6c696e6b6d616e6167657280'')"
proof -
  let ?h = "''6c696e6b6d616e6167657280''"
  have d: "decodeURIComponent demo_platform ?h = Some ?h" by (simp add: demo_platform_def)
  have c: "cookieHeader (changePasswordRequest (Some ''LM_AUTH=6c696e6b6d616e6167657280'') old new)
             = Some (AUTH_COOKIE @ ''='' @ ?h)"
    by (simp add: changePasswordRequest_def AUTH_COOKIE_def)
  show g: "getCookie demo_platform
     (changePasswordRequest (Some ''LM_AUTH=6c696e6b6d616e6167657280'') old new) AUTH_COOKIE
     = Inr (Some ?h)"
    by (rule getCookie_auth [OF _ _ _ d c]) simp_all
  show "isAuthenticated demo_platform
     (changePasswordRequest (Some ''LM_AUTH=6c696e6b6d616e6167657280'') old new) empty_env
     = Inr True"
    by (simp add: isAuthenticated_token [OF g] demo_hashes)
qed

lemma demo_platform_uriKeepsHex: "uriKeepsHex demo_platform"
  by (auto simp: uriKeepsHex_def hexText_def demo_platform_def)

lemma demo_cookies:
  "getCookie demo_platform (changePasswordRequest None old new) AUTH_COOKIE = Inr None"
  "getCookie demo_platform (changePasswordRequest (Some ''LM_AUTH=%'') old new) AUTH_COOKIE
     = Inl ''URIError''"
  "getCookie demo_platform (changePasswordRequest (Some ''LM_AUTH=7880'') old new) AUTH_COOKIE
     = Inr (Some ''7880'')"
  by (simp_all add: getCookie_def changePasswordRequest_def AUTH_COOKIE_def demo_platform_def)

lemma changePasswordRequest_fields:
  "pathname (changePasswordRequest c old new) = ''/api/change-password''"
  "httpMethod (changePasswordRequest c old new) = ''POST''"
  "body (changePasswordRequest c old new)
     = Some (JObj [(''oldPassword'', JStr old), (''newPassword'', JStr new)])"
  "jsProp (JObj [(''oldPassword'', JStr old), (''newPassword'', JStr new)]) ''oldPassword''
     = Some (JStr old)"
  "jsProp (JObj [(''oldPassword'', JStr old), (''newPassword'', JStr new)]) ''newPassword''
     = Some (JStr new)"
  by (simp_all add: changePasswordRequest_def)

theorem change_password_contract_witness:
  "(\<forall>s. sha256 demo_platform s \<noteq> []) \<and>
   uriKeepsHex demo_platform \<and>
   authenticate demo_platform empty_env ''linkmanager'' \<and>
   fetch demo_platform empty_env (changePasswordRequest None ''linkmanager'' ''x'')
     = (Respond \<lparr>status = 401, content = JObj [(''error'', JStr ''Unauthorized'')],
          headers = [(''Content-Type'', ''application/json; charset=utf-8'')]\<rparr>, empty_env) \<and>
   fetch demo_platform empty_env
     (changePasswordRequest (Some ''LM_AUTH=7880'') ''linkmanager'' ''x'')
     = (Respond \<lparr>status = 401, content = JObj [(''error'', JStr ''Unauthorized'')],
          headers = [(''Content-Type'', ''application/json; charset=utf-8'')]\<rparr>, empty_env) \<and>
   fetch demo_platform empty_env
     (changePasswordRequest (Some ''LM_AUTH=%'') ''linkmanager'' ''x'')
     = (Thrown ''URIError'', empty_env) \<and>
   fetch demo_platform empty_env
     (changePasswordRequest (Some ''LM_AUTH=6c696e6b6d616e6167657280'') ''wrong'' ''x'')
     = (Respond \<lparr>status = 400, content = JObj [(''error'', JStr ''Old password incorrect'')],
          headers = [(''Content-Type'', ''application/json; charset=utf-8'')]\<rparr>, empty_env) \<and>
   fetch demo_platform empty_env
     (changePasswordRequest (Some ''LM_AUTH=6c696e6b6d616e6167657280'') ''linkmanager'' ''x'')
     = (Respond \<lparr>status = 200, content = JObj [(''ok'', JBool True)],
          headers = [(''Set-Cookie'',
                       ''LM_AUTH=7880; Path=/; HttpOnly; Secure; SameSite=Lax; Max-Age=2592000''),
                     (''Content-Type'', ''application/json; charset=utf-8'')]\<rparr>,
        \<lparr>config_doc = Some \<lparr>passwordHash = Some ''7880''\<rparr>, data_doc = None\<rparr>) \<and>
   authenticate demo_platform
     \<lparr>config_doc = Some \<lparr>passwordHash = Some ''7880''\<rparr>, data_doc = None\<rparr> ''x'' \<and>
   \<not> authenticate demo_platform
     \<lparr>config_doc = Some \<lparr>passwordHash = Some ''7880''\<rparr>, data_doc = None\<rparr> ''linkmanager'' \<and>
   isAuthenticated demo_platform
     \<lparr>httpMethod = ''GET'', pathname = ''/api/data'', cookieHeader = Some ''LM_AUTH=7880'',
      body = None\<rparr>
     \<lparr>config_doc = Some \<lparr>passwordHash = Some ''7880''\<rparr>, data_doc = None\<rparr> = Inr True \<and>
   isAuthenticated demo_platform
     \<lparr>httpMethod = ''GET'', pathname = ''/api/data'',
      cookieHeader = Some ''LM_AUTH=6c696e6b6d616e6167657280'', body = None\<rparr>
     \<lparr>config_doc = Some \<lparr>passwordHash = Some ''7880''\<rparr>, data_doc = None\<rparr> = Inr False"
proof -
  let ?c = "Some ''LM_AUTH=6c696e6b6d616e6167657280''"
  let ?envx = "\<lparr>config_doc = Some \<lparr>passwordHash = Some ''7880''\<rparr>, data_doc = None\<rparr>"
  let ?rnew = "\<lparr>httpMethod = ''GET'', pathname = ''/api/data'',
      cookieHeader = Some ''LM_AUTH=7880'', body = None\<rparr>"
  let ?rold = "\<lparr>httpMethod = ''GET'', pathname = ''/api/data'',
      cookieHeader = Some ''LM_AUTH=6c696e6b6d616e6167657280'', body = None\<rparr>"
  have digest: "\<forall>s. sha256 demo_platform s \<noteq> []" by (simp add: demo_platform_def)
  have enc: "encodeURIComponent demo_platform h = h" for h by (simp add: demo_platform_def)
  note u = demo_platform_uriKeepsHex
  have ne: "''linkmanager'' \<noteq> []" "''x'' \<noteq> []" "''wrong'' \<noteq> []" by simp_all
  have cfg: "config_doc empty_env = None" by (simp add: empty_env_def)
  note inst = change_password_contract [OF digest changePasswordRequest_fields,
      where ?env0.0 = empty_env and env = empty_env]
  have w1: "authenticate demo_platform empty_env ''linkmanager''"
    using inst [OF ne(1) ne(2), of ?c, THEN conjunct1] cfg by simp
  have w2: "fetch demo_platform empty_env (changePasswordRequest None ''linkmanager'' ''x'')
     = (Respond \<lparr>status = 401, content = JObj [(''error'', JStr ''Unauthorized'')],
          headers = [(''Content-Type'', ''application/json; charset=utf-8'')]\<rparr>, empty_env)"
    using inst [OF ne(1) ne(2), of None, THEN conjunct2, THEN conjunct2, THEN conjunct1]
    by (simp add: demo_cookies)
  have w3: "fetch demo_platform empty_env
     (changePasswordRequest (Some ''LM_AUTH=7880'') ''linkmanager'' ''x'')
     = (Respond \<lparr>status = 401, content = JObj [(''error'', JStr ''Unauthorized'')],
          headers = [(''Content-Type'', ''application/json; charset=utf-8'')]\<rparr>, empty_env)"
    using inst [OF ne(1) ne(2), of "Some ''LM_AUTH=7880''",
        THEN conjunct2, THEN conjunct2, THEN conjunct1]
    by (simp add: demo_cookies demo_hashes)
  have w4: "fetch demo_platform empty_env
     (changePasswordRequest (Some ''LM_AUTH=%'') ''linkmanager'' ''x'')
     = (Thrown ''URIError'', empty_env)"
    using inst [OF ne(1) ne(2), of "Some ''LM_AUTH=%''", THEN conjunct2, THEN conjunct1]
    by (simp add: demo_cookies)
  have w5: "fetch demo_platform empty_env (changePasswordRequest ?c ''wrong'' ''x'')
     = (Respond \<lparr>status = 400, content = JObj [(''error'', JStr ''Old password incorrect'')],
          headers = [(''Content-Type'', ''application/json; charset=utf-8'')]\<rparr>, empty_env)"
    using inst [OF ne(3) ne(2), of ?c,
        THEN conjunct2, THEN conjunct2, THEN conjunct2, THEN conjunct1]
    by (simp add: demo_cookie_authenticated demo_hashes)
  have prem: "getCookie demo_platform (changePasswordRequest ?c ''linkmanager'' ''x'') AUTH_COOKIE
                = Inr (Some (getCurrentPasswordHash demo_platform empty_env)) \<and>
              hashPassword demo_platform ''linkmanager''
                = getCurrentPasswordHash demo_platform empty_env"
    by (simp add: demo_cookie_authenticated demo_hashes)
  note main = inst [OF ne(1) ne(2), of ?c,
        THEN conjunct2, THEN conjunct2, THEN conjunct2, THEN conjunct2, THEN mp, OF prem]
  have w6: "fetch demo_platform empty_env (changePasswordRequest ?c ''linkmanager'' ''x'')
     = (Respond \<lparr>status = 200, content = JObj [(''ok'', JBool True)],
          headers = [(''Set-Cookie'',
                       ''LM_AUTH=7880; Path=/; HttpOnly; Secure; SameSite=Lax; Max-Age=2592000''),
                     (''Content-Type'', ''application/json; charset=utf-8'')]\<rparr>, ?envx)"
    using main [THEN conjunct1]
    by (simp add: demo_hashes empty_env_def getConfig_def enc)
  then have s: "snd (fetch demo_platform empty_env (changePasswordRequest ?c ''linkmanager'' ''x''))
                  = ?envx" by simp
  note rest = main [THEN conjunct2, THEN conjunct2, THEN conjunct2, THEN conjunct2, unfolded s]
  have w7: "authenticate demo_platform ?envx ''x''" by (rule rest [THEN conjunct1])
  have diff: "sha256 demo_platform ''linkmanager'' \<noteq> sha256 demo_platform ''x''"
    by (simp add: demo_platform_def)
  have w8: "\<not> authenticate demo_platform ?envx ''linkmanager''"
    using rest [THEN conjunct2, THEN conjunct1, THEN mp, OF diff] by (rule conjunct1)
  note hx = rest [THEN conjunct2, THEN conjunct2, THEN mp, OF u]
  have w9: "isAuthenticated demo_platform ?rnew ?envx = Inr True"
    using hx [THEN conjunct2, THEN conjunct1, THEN spec, of ?rnew]
    by (simp add: demo_hashes)
  have w10: "isAuthenticated demo_platform ?rold ?envx = Inr False"
    using hx [THEN conjunct2, THEN conjunct2, THEN mp, OF diff, THEN spec, of ?rold]
    by (simp add: demo_hashes)
  note k1 = conjI [OF w9 w10]
  note k2 = conjI [OF w8 k1]
  note k3 = conjI [OF w7 k2]
  note k4 = conjI [OF w6 k3]
  note k5 = conjI [OF w5 k4]
  note k6 = conjI [OF w4 k5]
  note k7 = conjI [OF w3 k6]
  note k8 = conjI [OF w2 k7]
  note k9 = conjI [OF w1 k8]
  note k10 = conjI [OF u k9]
  show ?thesis by (rule conjI [OF digest k10])
qed

text \<open>
  The specification's reading of C7 does not hold of the code. A wrong old password, on an
  authenticated request, is answered with status 400 and \<^verbatim>\<open>Old password incorrect\<close>, not
  with \<^verbatim>\<open>Unauthorized\<close>. And a change of the password to itself succeeds, after which the
  old password and the cookie issued before still authenticate.
\<close>

theorem change_password_counterexample:
  "hashPassword demo_platform ''wrong'' \<noteq> getCurrentPasswordHash demo_platform empty_env \<and>
   fetch demo_platform empty_env
     (changePasswordRequest (Some ''LM_AUTH=6c696e6b6d616e6167657280'') ''wrong'' ''x'')
     = (Respond \<lparr>status = 400, content = JObj [(''error'', JStr ''Old password incorrect'')],
          headers = [(''Content-Type'', ''application/json; charset=utf-8'')]\<rparr>, empty_env) \<and>
   fst (fetch demo_platform empty_env
     (changePasswordRequest (Some ''LM_AUTH=6c696e6b6d616e6167657280'') ''linkmanager'' ''linkmanager''))
     = Respond \<lparr>status = 200, content = JObj [(''ok'', JBool True)],
          headers = [(''Set-Cookie'',
                       ''LM_AUTH=6c696e6b6d616e6167657280; Path=/; HttpOnly; Secure; SameSite=Lax; Max-Age=2592000''),
                     (''Content-Type'', ''application/json; charset=utf-8'')]\<rparr> \<and>
   authenticate demo_platform
     (snd (fetch demo_platform empty_env
       (changePasswordRequest (Some ''LM_AUTH=6c696e6b6d616e6167657280'') ''linkmanager'' ''linkmanager'')))
     ''linkmanager'' \<and>
   isAuthenticated demo_platform
     (changePasswordRequest (Some ''LM_AUTH=6c696e6b6d616e6167657280'') ''linkmanager'' ''linkmanager'')
     (snd (fetch demo_platform empty_env
       (changePasswordRequest (Some ''LM_AUTH=6c696e6b6d616e6167657280'') ''linkmanager'' ''linkmanager'')))
     = Inr True"
proof -
  let ?c = "Some ''LM_AUTH=6c696e6b6d616e6167657280''"
  have enc: "encodeURIComponent demo_platform h = h" for h by (simp add: demo_platform_def)
  have w: "hashPassword demo_platform ''wrong'' \<noteq> getCurrentPasswordHash demo_platform empty_env"
    by (simp add: demo_hashes)
  have a: "fetch demo_platform empty_env (changePasswordRequest ?c ''wrong'' ''x'')
     = (Respond \<lparr>status = 400, content = JObj [(''error'', JStr ''Old password incorrect'')],
          headers = [(''Content-Type'', ''application/json; charset=utf-8'')]\<rparr>, empty_env)"
    using handleChangePassword_wrong_old [OF demo_cookie_authenticated(1) _ _ _ _ _ w, of "''wrong''" "''x''"
        "JObj [(''oldPassword'', JStr ''wrong''), (''newPassword'', JStr ''x'')]" "''x''"]
    by (simp add: fetch_def changePasswordRequest_def)
  let ?env' = "empty_env\<lparr>config_doc := Some ((getConfig empty_env)
                 \<lparr>passwordHash := Some ''6c696e6b6d616e6167657280''\<rparr>)\<rparr>"
  have s: "hashPassword demo_platform ''linkmanager'' = getCurrentPasswordHash demo_platform empty_env"
    by (simp add: demo_hashes)
  have b: "fetch demo_platform empty_env (changePasswordRequest ?c ''linkmanager'' ''linkmanager'')
     = (Respond \<lparr>status = 200, content = JObj [(''ok'', JBool True)],
          headers = [(''Set-Cookie'',
                       ''LM_AUTH=6c696e6b6d616e6167657280; Path=/; HttpOnly; Secure; SameSite=Lax; Max-Age=2592000''),
                     (''Content-Type'', ''application/json; charset=utf-8'')]\<rparr>, ?env')"
    using handleChangePassword_success [OF demo_cookie_authenticated(1) _ _ _ _ _ s,
        of "''linkmanager''" "''linkmanager''"
        "JObj [(''oldPassword'', JStr ''linkmanager''), (''newPassword'', JStr ''linkmanager'')]"
        "''linkmanager''"]
    by (simp add: fetch_def changePasswordRequest_def demo_hashes setAuthCookie_text enc)
  have cur: "getCurrentPasswordHash demo_platform ?env' = ''6c696e6b6d616e6167657280''"
    by (simp add: getCurrentPasswordHash_def getConfig_def demo_hashes)
  have c: "authenticate demo_platform ?env' ''linkmanager''"
    by (simp add: authenticate_iff cur demo_hashes)
  have d: "isAuthenticated demo_platform (changePasswordRequest ?c ''linkmanager'' ''linkmanager'') ?env'
             = Inr True"
    by (simp add: isAuthenticated_token [OF demo_cookie_authenticated(2)] cur)
  from w a c d show ?thesis by (simp add: b)
qed

section \<open>The data endpoint\<close>

lemma data_unauthorized:
  assumes "pathname req = ''/api/data''" "isAuthenticated P req env = Inr False"
  shows "fetch P env req =
           (Respond \<lparr>status = 401, content = JObj [(''error'', JStr ''Unauthorized'')],
              headers = [(''Content-Type'', ''application/json; charset=utf-8'')]\<rparr>, env)"
  using assms by (simp add: fetch_data handleData_def json_def errorBody_def)

lemma data_get:
  assumes "pathname req = ''/api/data''" "isAuthenticated P req env = Inr True"
    "httpMethod req = ''GET''"
  shows "fetch P env req =
           (Respond \<lparr>status = 200,
              content = (case data_doc env of
                           None \<Rightarrow> JObj [(''categories'', JArr []), (''links'', JArr [])]
                         | Some d \<Rightarrow> if truthy d then d
                                     else JObj [(''categories'', JArr []), (''links'', JArr [])]),
              headers = [(''Content-Type'', ''application/json; charset=utf-8'')]\<rparr>, env)"
  using assms
  by (simp add: fetch_data handleData_def json_def emptyDataset_def split: option.splits)

lemma data_post:
  assumes "pathname req = ''/api/data''" "isAuthenticated P req env = Inr True"
    "httpMethod req = ''POST''" "body req = Some b"
  shows "fetch P env req =
           (Respond \<lparr>status = 200, content = JObj [(''ok'', JBool True)],
              headers = [(''Content-Type'', ''application/json; charset=utf-8'')]\<rparr>,
            env\<lparr>data_doc := Some b\<rparr>)"
  using assms by (simp add: fetch_data handleData_def json_def okBody_def)

lemma data_post_unparseable:
  assumes "pathname req = ''/api/data''" "isAuthenticated P req env = Inr True"
    "httpMethod req = ''POST''" "body req = None"
  shows "fetch P env req = (Thrown ''SyntaxError'', env)"
  using assms by (simp add: fetch_data handleData_def)

lemma data_malformed_cookie:
  assumes "pathname req = ''/api/data''" "getCookie P req AUTH_COOKIE = Inl e"
  shows "fetch P env req = (Thrown e, env)"
  using assms by (simp add: fetch_data handleData_def isAuthenticated_def)

text \<open>
  Claim C9 at an authenticated POST to \<^verbatim>\<open>/api/data\<close> whose body is not JSON, against an
  empty store: no response with status 400 is produced, the \<^verbatim>\<open>SyntaxError\<close> of
  \<^verbatim>\<open>req.json()\<close> leaves the handler. The login request with an unparseable body, next to
  it, is answered with 400.
\<close>

theorem data_post_unparseable_throws:
  "isAuthenticated demo_platform
     \<lparr>httpMethod = ''POST'', pathname = ''/api/data'',
      cookieHeader = Some ''LM_AUTH=6c696e6b6d616e6167657280'', body = None\<rparr> empty_env = Inr True \<and>
   fetch demo_platform empty_env
     \<lparr>httpMethod = ''POST'', pathname = ''/api/data'',
      cookieHeader = Some ''LM_AUTH=6c696e6b6d616e6167657280'', body = None\<rparr>
     = (Thrown ''SyntaxError'', empty_env) \<and>
   fetch demo_platform empty_env
     \<lparr>httpMethod = ''POST'', pathname = ''/api/login'',
      cookieHeader = Some ''LM_AUTH=6c696e6b6d616e6167657280'', body = None\<rparr>
     = (Respond \<lparr>status = 400, content = JObj [(''error'', JStr ''Invalid JSON'')],
          headers = [(''Content-Type'', ''application/json; charset=utf-8'')]\<rparr>, empty_env)"
proof -
  let ?h = "''6c696e6b6d616e6167657280''"
  let ?req = "\<lparr>httpMethod = ''POST'', pathname = ''/api/data'',
      cookieHeader = Some ''LM_AUTH=6c696e6b6d616e6167657280'', body = None\<rparr>"
  have d: "decodeURIComponent demo_platform ?h = Some ?h" by (simp add: demo_platform_def)
  have g: "getCookie demo_platform ?req AUTH_COOKIE = Inr (Some ?h)"
    by (rule getCookie_auth [OF _ _ _ d]) (simp_all add: AUTH_COOKIE_def)
  have a: "isAuthenticated demo_platform ?req empty_env = Inr True"
    by (simp add: isAuthenticated_token [OF g] demo_hashes)
  have t: "fetch demo_platform empty_env ?req = (Thrown ''SyntaxError'', empty_env)"
    by (rule data_post_unparseable [OF _ a]) simp_all
  have l: "fetch demo_platform empty_env
     \<lparr>httpMethod = ''POST'', pathname = ''/api/login'',
      cookieHeader = Some ''LM_AUTH=6c696e6b6d616e6167657280'', body = None\<rparr>
     = (Respond \<lparr>status = 400, content = JObj [(''error'', JStr ''Invalid JSON'')],
          headers = [(''Content-Type'', ''application/json; charset=utf-8'')]\<rparr>, empty_env)"
    by (simp add: fetch_def handleLogin_def json_def errorBody_def)
  from a t l show ?thesis by blast
qed

end
